theory Spec2Isabelle
  imports Main
begin

section \<open>Owner provider (main.py, get_owner and set_owner)\<close>

text \<open>
  The operating system is an explicit value. \<open>owner_of w p\<close> is what the platform's owner
  lookup yields for path \<open>p\<close> (\<open>None\<close> when the lookup raises: missing path, access
  denied, unknown uid). \<open>refusal w p u\<close> is \<open>Some reason\<close> when the platform call that
  assigns \<open>p\<close> to user \<open>u\<close> raises with message \<open>reason\<close>, and \<open>None\<close> when it goes through.
  Writing to the \<open>logging\<close> module's file is not part of the model.
\<close>

record world =
  owner_of :: "string \<Rightarrow> string option"
  refusal :: "string \<Rightarrow> string \<Rightarrow> string option"

text \<open>\<open>get_owner\<close>: the whole body sits in \<open>try\<close>; the handler returns "Unknown".\<close>

definition get_owner :: "world \<Rightarrow> string \<Rightarrow> string" where
  "get_owner w path =
     (case owner_of w path of
        Some name \<Rightarrow> name
      | None \<Rightarrow> ''Unknown'')"

text \<open>\<open>set_owner\<close>: returns \<open>(True, "")\<close>, or \<open>(False, str(e))\<close> from the handler.\<close>

definition set_owner :: "world \<Rightarrow> string \<Rightarrow> string \<Rightarrow> (bool \<times> string) \<times> world" where
  "set_owner w path user =
     (case refusal w path user of
        None \<Rightarrow> ((True, ''''), w\<lparr>owner_of := (owner_of w)(path \<mapsto> user)\<rparr>)
      | Some reason \<Rightarrow> ((False, reason), w))"

section \<open>Audit store (table ownership_changes)\<close>

text \<open>
  A row is the tuple \<open>(id, path, original_owner, current_owner, operation_time)\<close>.
  The table keeps its rows in insertion order; \<open>last_id\<close> is the AUTOINCREMENT
  counter, \<open>now\<close> the value CURRENT_TIMESTAMP yields, and \<open>outage\<close> is \<open>Some msg\<close> while
  every sqlite3 call raises with message \<open>msg\<close>.
\<close>

record change_record =
  rec_id :: nat
  rec_path :: string
  original_owner :: string
  current_owner :: string
  operation_time :: nat

record audit_db =
  rows :: "change_record list"
  last_id :: nat
  now :: nat
  outage :: "string option"

text \<open>\<open>record_change\<close>: INSERT inside \<open>try\<close>; the handler only logs.\<close>

definition record_change :: "audit_db \<Rightarrow> string \<Rightarrow> string \<Rightarrow> string \<Rightarrow> audit_db" where
  "record_change d path orig cur =
     (case outage d of
        Some msg \<Rightarrow> d
      | None \<Rightarrow>
          d\<lparr>rows := rows d @
                 [\<lparr>rec_id = last_id d + 1, rec_path = path, original_owner = orig,
                   current_owner = cur, operation_time = now d\<rparr>],
            last_id := last_id d + 1\<rparr>)"

text \<open>\<open>get_all_changes\<close>: SELECT of every row; the handler returns the empty list.\<close>

definition get_all_changes :: "audit_db \<Rightarrow> change_record list" where
  "get_all_changes d = (case outage d of Some msg \<Rightarrow> [] | None \<Rightarrow> rows d)"

text \<open>
  The statement \<open>DELETE FROM ownership_changes WHERE id = ?\<close> that the revert worker
  runs inline: \<open>Inl msg\<close> when sqlite3 raises, otherwise the table without the rows
  of that id.
\<close>

definition delete_change :: "audit_db \<Rightarrow> nat \<Rightarrow> string + audit_db" where
  "delete_change d i =
     (case outage d of
        Some msg \<Rightarrow> Inl msg
      | None \<Rightarrow> Inr (d\<lparr>rows := filter (\<lambda>r. rec_id r \<noteq> i) (rows d)\<rparr>))"

section \<open>Worker signals and tallies\<close>

text \<open>The signals of \<open>WorkerSignals\<close>; a worker's output is the list of its emissions in order.\<close>

datatype signal =
    Progress_update nat
  | Log_message string
  | Counters_update nat nat nat
  | Status_update string
  | Error_occurred string
  | Ownership_change_finished

text \<open>The three local variables \<open>changed\<close>, \<open>unchanged\<close>, \<open>errors\<close> of a worker's \<open>run\<close>.\<close>

record counters =
  changed :: nat
  unchanged :: nat
  errors :: nat

definition zero_counters :: counters where
  "zero_counters = \<lparr>changed = 0, unchanged = 0, errors = 0\<rparr>"

text \<open>
  \<open>if idx % 500 == 0 or idx == total: progress = int((idx / total) * 100); emit\<close>.
  The value is computed in double precision floating point; the model takes that
  computation as the parameter \<open>pct\<close> (\<open>pct idx total\<close> stands for
  \<open>int((idx / total) * 100)\<close>).
\<close>

definition progress_step :: "(nat \<Rightarrow> nat \<Rightarrow> nat) \<Rightarrow> nat \<Rightarrow> nat \<Rightarrow> signal list" where
  "progress_step pct idx tot =
     (if idx mod 500 = 0 \<or> idx = tot then [Progress_update (pct idx tot)] else [])"

text \<open>
  Exact integer percentage \<open>\<lfloor>100 * idx / total\<rfloor>\<close>. The double computation gives the
  same value whenever \<open>idx / total\<close> is a dyadic fraction, in particular for
  \<open>idx = total\<close>; it is used to instantiate \<open>pct\<close> on such inputs.
\<close>

definition exact_percent :: "nat \<Rightarrow> nat \<Rightarrow> nat" where
  "exact_percent idx tot = (100 * idx) div tot"

section \<open>OwnershipCheckWorker.run\<close>

text \<open>One iteration of the loop body, up to the progress update.\<close>

definition check_item :: "string \<Rightarrow> world \<Rightarrow> counters \<Rightarrow> string \<Rightarrow> signal list \<times> counters" where
  "check_item current_user w t path =
     (let current_owner = get_owner w path;
          line = Log_message (''Checked: '' @ path @ '' - Owner: '' @ current_owner)
      in if current_owner \<noteq> current_user
         then ([line], t\<lparr>unchanged := unchanged t + 1\<rparr>)
         else ([line], t\<lparr>unchanged := unchanged t + 1\<rparr>))"

fun check_loop ::
  "(nat \<Rightarrow> nat \<Rightarrow> nat) \<Rightarrow> string \<Rightarrow> world \<Rightarrow> nat \<Rightarrow> nat \<Rightarrow> counters \<Rightarrow> string list
     \<Rightarrow> signal list \<times> counters" where
  "check_loop pct current_user w tot idx t [] = ([], t)"
| "check_loop pct current_user w tot idx t (path # paths) =
     (let (s1, t1) = check_item current_user w t path;
          s2 = progress_step pct idx tot;
          (s3, t3) = check_loop pct current_user w tot (idx + 1) t1 paths
      in (s1 @ s2 @ s3, t3))"

definition OwnershipCheckWorker_run ::
  "(nat \<Rightarrow> nat \<Rightarrow> nat) \<Rightarrow> string \<Rightarrow> world \<Rightarrow> string list \<Rightarrow> signal list" where
  "OwnershipCheckWorker_run pct current_user w paths =
     (let tot = length paths;
          (s, t) = check_loop pct current_user w tot 1 zero_counters paths
      in s @ [Counters_update (changed t) (unchanged t) (errors t),
              Status_update ''Ownership check completed.''])"

section \<open>OwnershipChangeWorker.run\<close>

text \<open>The machine the change and revert workers act on: the platform and the audit table.\<close>

record machine =
  os :: world
  db :: audit_db

text \<open>An element of \<open>items\<close>: the dict with keys \<open>'path'\<close> and \<open>'original_owner'\<close>.\<close>

record work_item =
  item_path :: string
  item_original_owner :: string

text \<open>
  One iteration of the loop body, up to the progress update. \<open>set_owner\<close>,
  \<open>get_owner\<close> and \<open>record_change\<close> catch every exception themselves, so the
  \<open>except\<close> branch of the body has no call that reaches it.
\<close>

definition change_item ::
  "string \<Rightarrow> machine \<Rightarrow> counters \<Rightarrow> work_item \<Rightarrow> signal list \<times> machine \<times> counters" where
  "change_item current_user m t item =
     (let path = item_path item;
          orig = item_original_owner item;
          ((success, error), w') = set_owner (os m) path current_user
      in if success
         then (let new_owner = get_owner w' path;
                   line = Log_message (''Ownership changed for '' @ path @ '' to '' @ new_owner);
                   d' = record_change (db m) path orig new_owner
               in ([line], \<lparr>os = w', db = d'\<rparr>, t\<lparr>changed := changed t + 1\<rparr>))
         else ([Log_message (''Failed to change owner for '' @ path @ '': '' @ error)],
               m\<lparr>os := w'\<rparr>, t\<lparr>errors := errors t + 1\<rparr>))"

fun change_loop ::
  "(nat \<Rightarrow> nat \<Rightarrow> nat) \<Rightarrow> string \<Rightarrow> nat \<Rightarrow> nat \<Rightarrow> machine \<Rightarrow> counters \<Rightarrow> work_item list
     \<Rightarrow> signal list \<times> machine \<times> counters" where
  "change_loop pct current_user tot idx m t [] = ([], m, t)"
| "change_loop pct current_user tot idx m t (item # items) =
     (let (s1, m1, t1) = change_item current_user m t item;
          s2 = progress_step pct idx tot;
          (s3, m3, t3) = change_loop pct current_user tot (idx + 1) m1 t1 items
      in (s1 @ s2 @ s3, m3, t3))"

definition OwnershipChangeWorker_run ::
  "(nat \<Rightarrow> nat \<Rightarrow> nat) \<Rightarrow> string \<Rightarrow> machine \<Rightarrow> work_item list \<Rightarrow> signal list \<times> machine" where
  "OwnershipChangeWorker_run pct current_user m items =
     (let tot = length items;
          (s, m', t) = change_loop pct current_user tot 1 m zero_counters items
      in (s @ [Counters_update (changed t) (unchanged t) (errors t),
               Status_update ''Ownership change process completed.'',
               Ownership_change_finished], m'))"

section \<open>RevertOwnershipWorker.run\<close>

text \<open>
  One iteration of the loop body, up to the progress update. The DELETE runs inline in
  the \<open>try\<close>: when sqlite3 raises, control reaches the \<open>except\<close> branch after the owner
  has been set, and the item is tallied as an error.
\<close>

definition revert_item ::
  "machine \<Rightarrow> counters \<Rightarrow> change_record \<Rightarrow> signal list \<times> machine \<times> counters" where
  "revert_item m t record =
     (let path = rec_path record;
          orig = original_owner record;
          ((success, error), w') = set_owner (os m) path orig
      in if success
         then (let reverted_owner = get_owner w' path;
                   line = Log_message (''Reverted ownership for '' @ path @ '' to '' @ orig)
               in case delete_change (db m) (rec_id record) of
                    Inr d' \<Rightarrow> ([line], \<lparr>os = w', db = d'\<rparr>, t\<lparr>changed := changed t + 1\<rparr>)
                  | Inl msg \<Rightarrow>
                      ([line, Log_message (''Error reverting ownership for '' @ path @ '': '' @ msg)],
                       m\<lparr>os := w'\<rparr>, t\<lparr>errors := errors t + 1\<rparr>))
         else ([Log_message (''Failed to revert owner for '' @ path @ '': '' @ error)],
               m\<lparr>os := w'\<rparr>, t\<lparr>errors := errors t + 1\<rparr>))"

fun revert_loop ::
  "(nat \<Rightarrow> nat \<Rightarrow> nat) \<Rightarrow> nat \<Rightarrow> nat \<Rightarrow> machine \<Rightarrow> counters \<Rightarrow> change_record list
     \<Rightarrow> signal list \<times> machine \<times> counters" where
  "revert_loop pct tot idx m t [] = ([], m, t)"
| "revert_loop pct tot idx m t (record # records) =
     (let (s1, m1, t1) = revert_item m t record;
          s2 = progress_step pct idx tot;
          (s3, m3, t3) = revert_loop pct tot (idx + 1) m1 t1 records
      in (s1 @ s2 @ s3, m3, t3))"

definition RevertOwnershipWorker_run ::
  "(nat \<Rightarrow> nat \<Rightarrow> nat) \<Rightarrow> machine \<Rightarrow> change_record list \<Rightarrow> signal list \<times> machine" where
  "RevertOwnershipWorker_run pct m records =
     (let tot = length records;
          (s, m', t) = revert_loop pct tot 1 m zero_counters records
      in (s @ [Counters_update (changed t) (unchanged t) (errors t),
               Status_update ''Reversion process completed.'',
               Ownership_change_finished], m'))"

section \<open>The main window: counters, progress bar and the slots of the signals\<close>

text \<open>
  The labels hold the texts \<open>Changed: n\<close>, \<open>Unchanged: n\<close>, \<open>Errors: n\<close>;
  \<open>show_final_report\<close> reads the numbers back from them. The model keeps the numbers.
  The status bar and the enabling of buttons are presentation and are left out.
\<close>

record window =
  progress_bar :: nat
  changed_label :: nat
  unchanged_label :: nat
  errors_label :: nat
  log_display :: "string list"

definition update_progress :: "window \<Rightarrow> nat \<Rightarrow> window" where
  "update_progress ui v = ui\<lparr>progress_bar := v\<rparr>"

definition log_message :: "window \<Rightarrow> string \<Rightarrow> window" where
  "log_message ui message = ui\<lparr>log_display := log_display ui @ [message]\<rparr>"

definition update_counters :: "window \<Rightarrow> nat \<Rightarrow> nat \<Rightarrow> nat \<Rightarrow> window" where
  "update_counters ui c u e =
     ui\<lparr>changed_label := c, unchanged_label := u, errors_label := e\<rparr>"

text \<open>The connections made with \<open>connect\<close>: each signal runs its slot.\<close>

fun dispatch :: "window \<Rightarrow> signal \<Rightarrow> window" where
  "dispatch ui (Progress_update v) = update_progress ui v"
| "dispatch ui (Log_message s) = log_message ui s"
| "dispatch ui (Counters_update c u e) = update_counters ui c u e"
| "dispatch ui (Status_update s) = ui"
| "dispatch ui (Error_occurred s) = ui"
| "dispatch ui Ownership_change_finished = ui"

definition deliver :: "window \<Rightarrow> signal list \<Rightarrow> window" where
  "deliver ui sigs = foldl dispatch ui sigs"

text \<open>"Reset counters and progress bar" at the start of every run.\<close>

definition reset_window :: "window \<Rightarrow> window" where
  "reset_window ui =
     ui\<lparr>progress_bar := 0, log_display := [], changed_label := 0,
        unchanged_label := 0, errors_label := 0\<rparr>"

section \<open>Path expansion (check_ownership_info, "Gather all files and directories")\<close>

text \<open>
  What the file system holds at a path: a regular file, or a directory with its listing in
  the order \<open>os.scandir\<close> reports it. A directory that cannot be listed, and a
  symbolic link to a directory (which \<open>os.walk\<close> names but does not enter), behave as
  \<open>Dir []\<close>; any entry that is not a directory is reported among \<open>files\<close> and is a
  \<open>File\<close> here.
\<close>

datatype node = File | Dir "(string \<times> node) list"

fun is_dir :: "node \<Rightarrow> bool" where
  "is_dir File = False"
| "is_dir (Dir es) = True"

text \<open>\<open>os.path.join\<close> of two components (posixpath).\<close>

definition path_join :: "string \<Rightarrow> string \<Rightarrow> string" where
  "path_join a b =
     (if b \<noteq> [] \<and> hd b = CHR ''/'' then b
      else if a = [] \<or> last a = CHR ''/'' then a @ b
      else a @ ''/'' @ b)"

text \<open>
  The loop \<open>for root, dirs, files in os.walk(path)\<close> with its two inner loops: for
  each directory visited, top down, the joined names of its sub-directories, then
  those of its files; then the sub-directories are visited in turn.
\<close>

fun walk :: "string \<Rightarrow> node \<Rightarrow> string list" where
  "walk root File = []"
| "walk root (Dir es) =
     map (\<lambda>e. path_join root (fst e)) (filter (\<lambda>e. is_dir (snd e)) es) @
     map (\<lambda>e. path_join root (fst e)) (filter (\<lambda>e. \<not> is_dir (snd e)) es) @
     concat (map (\<lambda>e. walk (path_join root (fst e)) (snd e))
                 (filter (\<lambda>e. is_dir (snd e)) es))"

text \<open>
  One selected path: \<open>fs path\<close> is what is found there (\<open>None\<close>: neither
  \<open>os.path.isfile\<close> nor \<open>os.path.isdir\<close> holds).
\<close>

definition expand_root :: "(string \<Rightarrow> node option) \<Rightarrow> string \<Rightarrow> string list" where
  "expand_root fs path =
     (case fs path of
        Some File \<Rightarrow> [path]
      | Some (Dir es) \<Rightarrow> walk path (Dir es)
      | None \<Rightarrow> [])"

definition collect :: "(string \<Rightarrow> node option) \<Rightarrow> string list \<Rightarrow> string list" where
  "collect fs selected_paths = concat (map (expand_root fs) selected_paths)"

section \<open>Partition into chunks (check_ownership_info, "Multithreading with QThreadPool")\<close>

datatype exn = ZeroDivisionError

text \<open>\<open>range(0, n, k)\<close> for a step \<open>k \<ge> 1\<close>, and the slice \<open>xs[i:j]\<close> for \<open>0 \<le> i \<le> j\<close>.\<close>

definition range_step :: "nat \<Rightarrow> nat \<Rightarrow> nat list" where
  "range_step n k = map (\<lambda>j. j * k) [0..<(n + k - 1) div k]"

definition slice :: "'a list \<Rightarrow> nat \<Rightarrow> nat \<Rightarrow> 'a list" where
  "slice xs i j = take (j - i) (drop i xs)"

text \<open>
  \<open>num_threads = min(4, maxThreadCount())\<close>,
  \<open>chunk_size = max(1, len(all_paths) // num_threads)\<close>,
  \<open>chunks = [all_paths[i:i + chunk_size] for i in range(0, len(all_paths), chunk_size)]\<close>.
  \<open>maxThreadCount()\<close> is a C int; \<open>//\<close> is floor division and raises on a zero divisor.
\<close>

definition chunk_size_of :: "int \<Rightarrow> nat \<Rightarrow> exn + nat" where
  "chunk_size_of max_thread_count n =
     (let num_threads = min 4 max_thread_count
      in if num_threads = 0 then Inl ZeroDivisionError
         else Inr (nat (max 1 (int n div num_threads))))"

definition chunks_of :: "nat \<Rightarrow> 'a list \<Rightarrow> 'a list list" where
  "chunks_of chunk_size xs =
     map (\<lambda>i. slice xs i (i + chunk_size)) (range_step (length xs) chunk_size)"

definition make_chunks :: "int \<Rightarrow> 'a list \<Rightarrow> exn + 'a list list" where
  "make_chunks max_thread_count all_paths =
     (case chunk_size_of max_thread_count (length all_paths) of
        Inl e \<Rightarrow> Inl e
      | Inr chunk_size \<Rightarrow> Inr (chunks_of chunk_size all_paths))"

section \<open>The three runs\<close>

text \<open>
  \<open>check_ownership_info\<close>: one \<open>OwnershipCheckWorker\<close> per chunk on the thread pool,
  then \<open>waitForDone\<close>. The workers only read the platform. Their signals are queued to
  the window's thread and run their slots there; the model delivers them worker by
  worker in chunk order, each worker's own emissions in the order it made them.
  \<open>check_signals\<close> is that stream, \<open>check_ownership_info\<close> the window after it.
  With no path selected the method returns at once; when the partition raises, the
  handler leaves the window as reset.
\<close>

definition check_signals ::
  "(nat \<Rightarrow> nat \<Rightarrow> nat) \<Rightarrow> string \<Rightarrow> world \<Rightarrow> string list list \<Rightarrow> signal list" where
  "check_signals pct current_user w chunks =
     concat (map (OwnershipCheckWorker_run pct current_user w) chunks)"

definition check_ownership_info ::
  "(nat \<Rightarrow> nat \<Rightarrow> nat) \<Rightarrow> int \<Rightarrow> string \<Rightarrow> (string \<Rightarrow> node option) \<Rightarrow> world
     \<Rightarrow> string list \<Rightarrow> string list \<Rightarrow> window \<Rightarrow> window" where
  "check_ownership_info pct max_thread_count current_user fs w selected_files selected_folders ui =
     (let selected_paths = selected_files @ selected_folders
      in if selected_paths = [] then ui
         else (let ui1 = reset_window ui;
                   all_paths = collect fs selected_paths
               in case make_chunks max_thread_count all_paths of
                    Inl e \<Rightarrow> ui1
                  | Inr chunks \<Rightarrow> deliver ui1 (check_signals pct current_user w chunks)))"

text \<open>
  \<open>change_permissions\<close>: the checked paths of the ownership list, each with the owner
  \<open>get_owner\<close> reports now; one \<open>OwnershipChangeWorker\<close> for all of them. \<open>confirmed\<close>
  is the answer to the confirmation dialog.
\<close>

definition change_permissions ::
  "(nat \<Rightarrow> nat \<Rightarrow> nat) \<Rightarrow> string \<Rightarrow> bool \<Rightarrow> string list \<Rightarrow> machine \<Rightarrow> window
     \<Rightarrow> window \<times> machine" where
  "change_permissions pct current_user confirmed checked_paths m ui =
     (let selected_items =
            map (\<lambda>path. \<lparr>item_path = path, item_original_owner = get_owner (os m) path\<rparr>)
                checked_paths
      in if selected_items = [] \<or> \<not> confirmed then (ui, m)
         else (let ui1 = reset_window ui;
                   (sigs, m') = OwnershipChangeWorker_run pct current_user m selected_items
               in (deliver ui1 sigs, m')))"

text \<open>
  \<open>initiate_revert_changes\<close>: the rows read from the table, the user's selection among
  them (\<open>pick\<close>), one \<open>RevertOwnershipWorker\<close> for the selected rows.
\<close>

definition initiate_revert_changes ::
  "(nat \<Rightarrow> nat \<Rightarrow> nat) \<Rightarrow> (change_record list \<Rightarrow> change_record list) \<Rightarrow> machine \<Rightarrow> window
     \<Rightarrow> window \<times> machine" where
  "initiate_revert_changes pct pick m ui =
     (let records = get_all_changes (db m)
      in if records = [] then (ui, m)
         else (let selected_records = pick records
               in if selected_records = [] then (ui, m)
                  else (let ui1 = reset_window ui;
                            (sigs, m') = RevertOwnershipWorker_run pct m selected_records
                        in (deliver ui1 sigs, m'))))"

section \<open>Reading a stream of signals\<close>

text \<open>The tallies carried by the \<open>counters_update\<close> emissions of a stream, in order.\<close>

fun counters_emitted :: "signal list \<Rightarrow> (nat \<times> nat \<times> nat) list" where
  "counters_emitted [] = []"
| "counters_emitted (Counters_update c u e # s) = (c, u, e) # counters_emitted s"
| "counters_emitted (x # s) = counters_emitted s"

text \<open>The values carried by the \<open>progress_update\<close> emissions of a stream, in order.\<close>

fun progress_emitted :: "signal list \<Rightarrow> nat list" where
  "progress_emitted [] = []"
| "progress_emitted (Progress_update v # s) = v # progress_emitted s"
| "progress_emitted (x # s) = progress_emitted s"

text \<open>The condition \<open>idx % 500 == 0 or idx == total\<close> under which a worker reports progress.\<close>

definition due :: "nat \<Rightarrow> nat \<Rightarrow> bool" where
  "due tot idx = (idx mod 500 = 0 \<or> idx = tot)"

text \<open>Element-wise sum of tallies.\<close>

fun sum_tallies :: "(nat \<times> nat \<times> nat) list \<Rightarrow> nat \<times> nat \<times> nat" where
  "sum_tallies [] = (0, 0, 0)"
| "sum_tallies ((c, u, e) # ts) =
     (case sum_tallies ts of (c', u', e') \<Rightarrow> (c + c', u + u', e + e'))"

text \<open>The three counters a window shows.\<close>

definition shown :: "window \<Rightarrow> nat \<times> nat \<times> nat" where
  "shown ui = (changed_label ui, unchanged_label ui, errors_label ui)"

text \<open>
  The progress values one worker emits over a chunk of \<open>n\<close> items: one for every index
  from 1 to \<open>n\<close> at which a report is due, computed from that index and \<open>n\<close>.
\<close>

definition reports :: "(nat \<Rightarrow> nat \<Rightarrow> nat) \<Rightarrow> nat \<Rightarrow> nat list" where
  "reports pct n = map (\<lambda>i. pct i n) (filter (due n) [1..<1 + n])"



section \<open>Which items the platform refuses\<close>

text \<open>The platform refuses to give the path of a change item to the acting user.\<close>

definition refused_item :: "world \<Rightarrow> string \<Rightarrow> work_item \<Rightarrow> bool" where
  "refused_item w u it = (refusal w (item_path it) u \<noteq> None)"

text \<open>The platform refuses to give the path of a record back to its original owner.\<close>

definition refused_record :: "world \<Rightarrow> change_record \<Rightarrow> bool" where
  "refused_record w r = (refusal w (rec_path r) (original_owner r) \<noteq> None)"

section \<open>Well-formed directory listings\<close>

text \<open>
  The names a directory listing reports are never empty and hold no \<open>/\<close>; of this, only
  that a name is not empty and does not begin with \<open>/\<close> is used.
\<close>

fun names_ok :: "node \<Rightarrow> bool" where
  "names_ok File = True"
| "names_ok (Dir es) = (\<forall>e \<in> set es. fst e \<noteq> [] \<and> hd (fst e) \<noteq> CHR ''/'' \<and> names_ok (snd e))"

section \<open>Concrete machines for the examples\<close>

text \<open>
  A platform on which only \<open>/a\<close> exists, owned by bob, and may be given away; every
  other path is unknown to it and every change of it is refused.
\<close>

definition demo_world :: world where
  "demo_world = \<lparr>owner_of = (\<lambda>p. if p = ''/a'' then Some ''bob'' else None),
                 refusal = (\<lambda>p u. if p = ''/a'' then None else Some ''denied'')\<rparr>"

text \<open>A platform on which every path is owned by bob and every change is allowed.\<close>

definition bob_world :: world where
  "bob_world = \<lparr>owner_of = (\<lambda>p. Some ''bob''), refusal = (\<lambda>p u. None)\<rparr>"

text \<open>A window before its first run.\<close>

definition blank_window :: window where
  "blank_window = \<lparr>progress_bar = 0, changed_label = 0, unchanged_label = 0, errors_label = 0,
      log_display = []\<rparr>"

text \<open>An audit table with no row, and the machine made of it and the platform above.\<close>

definition empty_db :: audit_db where
  "empty_db = \<lparr>rows = [], last_id = 0, now = 0, outage = None\<rparr>"

definition demo_machine :: machine where
  "demo_machine = \<lparr>os = demo_world, db = empty_db\<rparr>"

text \<open>Two change items: \<open>/locked\<close>, which the platform refuses, and \<open>/a\<close>, owned by bob.\<close>

definition locked_item :: work_item where
  "locked_item = \<lparr>item_path = ''/locked'', item_original_owner = ''Unknown''\<rparr>"

definition a_item :: work_item where
  "a_item = \<lparr>item_path = ''/a'', item_original_owner = ''bob''\<rparr>"


text \<open>
  Two rows of the audit table, for \<open>/a\<close> (once bob's) and \<open>/locked\<close> (once carol's), and
  a machine whose table holds both.
\<close>

definition rec_a :: change_record where
  "rec_a = \<lparr>rec_id = 1, rec_path = ''/a'', original_owner = ''bob'',
            current_owner = ''alice'', operation_time = 0\<rparr>"

definition rec_locked :: change_record where
  "rec_locked = \<lparr>rec_id = 2, rec_path = ''/locked'', original_owner = ''carol'',
                 current_owner = ''alice'', operation_time = 0\<rparr>"

definition two_row_machine :: machine where
  "two_row_machine =
     \<lparr>os = demo_world,
      db = \<lparr>rows = [rec_a, rec_locked], last_id = 2, now = 0, outage = None\<rparr>\<rparr>"





text \<open>The machine with the two rows whose audit database cannot be written.\<close>

definition stuck_machine :: machine where
  "stuck_machine =
     \<lparr>os = demo_world,
      db = \<lparr>rows = [rec_a, rec_locked], last_id = 2, now = 0,
            outage = Some ''database is locked''\<rparr>\<rparr>"

text \<open>Ten collected paths.\<close>

definition ten_paths :: "string list" where
  "ten_paths = [''/p0'', ''/p1'', ''/p2'', ''/p3'', ''/p4'', ''/p5'', ''/p6'', ''/p7'', ''/p8'', ''/p9'']"

text \<open>
  A file system: the directory \<open>/d\<close> holds the directory \<open>sub\<close> and the file \<open>g\<close>,
  \<open>/d/sub\<close> holds the file \<open>f\<close>, and \<open>/e\<close> is an empty directory.
\<close>

definition nested_fs :: "string \<Rightarrow> node option" where
  "nested_fs =
     [''/d'' \<mapsto> Dir [(''sub'', Dir [(''f'', File)]), (''g'', File)],
      ''/d/sub'' \<mapsto> Dir [(''f'', File)],
      ''/d/g'' \<mapsto> File,
      ''/d/sub/f'' \<mapsto> File,
      ''/e'' \<mapsto> Dir []]"

section \<open>The check worker\<close>

lemma counters_emitted_append [simp]:
  "counters_emitted (a @ b) = counters_emitted a @ counters_emitted b"
  by (induction a rule: counters_emitted.induct) simp_all

lemma progress_emitted_append [simp]:
  "progress_emitted (a @ b) = progress_emitted a @ progress_emitted b"
  by (induction a rule: progress_emitted.induct) simp_all

lemma progress_step_emitted [simp]:
  "counters_emitted (progress_step pct idx tot) = []"
  "progress_emitted (progress_step pct idx tot) = (if due tot idx then [pct idx tot] else [])"
  by (simp_all add: progress_step_def due_def)

lemma check_item_eq:
  "check_item u w t p =
     ([Log_message (''Checked: '' @ p @ '' - Owner: '' @ get_owner w p)],
      t\<lparr>unchanged := unchanged t + 1\<rparr>)"
  by (simp add: check_item_def Let_def)

lemma check_loop_Cons:
  "check_loop pct u w tot idx t (p # ps) =
     (Log_message (''Checked: '' @ p @ '' - Owner: '' @ get_owner w p)
        # progress_step pct idx tot
        @ fst (check_loop pct u w tot (Suc idx) (t\<lparr>unchanged := unchanged t + 1\<rparr>) ps),
      snd (check_loop pct u w tot (Suc idx) (t\<lparr>unchanged := unchanged t + 1\<rparr>) ps))"
  by (simp add: check_item_eq split_beta Let_def)

lemma check_loop_tally:
  "snd (check_loop pct u w tot idx t ps) = t\<lparr>unchanged := unchanged t + length ps\<rparr>"
  by (induction ps arbitrary: idx t) (simp_all add: check_loop_Cons del: check_loop.simps(2))

lemma due_upt:
  "map (\<lambda>i. pct i tot) (filter (due tot) [idx..<idx + Suc n]) =
     (if due tot idx then [pct idx tot] else []) @
     map (\<lambda>i. pct i tot) (filter (due tot) [Suc idx..<Suc idx + n])"
proof -
  have "[idx..<idx + Suc n] = idx # [Suc idx..<Suc idx + n]"
    by (subst upt_rec) simp
  then show ?thesis by simp
qed

lemma check_loop_signals:
  "counters_emitted (fst (check_loop pct u w tot idx t ps)) = []"
  "progress_emitted (fst (check_loop pct u w tot idx t ps)) =
     map (\<lambda>i. pct i tot) (filter (due tot) [idx..<idx + length ps])"
proof (induction ps arbitrary: idx t)
  case Nil
  { case 1 show ?case by simp }
  { case 2 show ?case by simp }
next
  case (Cons p ps)
  { case 1 show ?case by (simp add: check_loop_Cons Cons.IH(1) del: check_loop.simps(2)) }
  { case 2 show ?case
      using due_upt [of pct tot idx "length ps"]
      by (simp add: check_loop_Cons Cons.IH(2) del: check_loop.simps(2)) }
qed

lemma check_worker_counters:
  "counters_emitted (OwnershipCheckWorker_run pct u w paths) = [(0, length paths, 0)]"
  by (simp add: OwnershipCheckWorker_run_def split_beta Let_def check_loop_signals
      check_loop_tally zero_counters_def)


section \<open>The window after a stream of signals\<close>

lemma shown_dispatch:
  "shown (dispatch ui sg) = (case sg of Counters_update c u e \<Rightarrow> (c, u, e) | _ \<Rightarrow> shown ui)"
  by (cases sg) (simp_all add: shown_def update_progress_def log_message_def update_counters_def)

lemma shown_deliver:
  "shown (deliver ui sigs) =
     (if counters_emitted sigs = [] then shown ui else last (counters_emitted sigs))"
  unfolding deliver_def
proof (induction sigs arbitrary: ui)
  case Nil
  then show ?case by simp
next
  case (Cons sg sigs)
  show ?case
    by (cases sg) (simp_all add: Cons.IH shown_dispatch del: dispatch.simps)
qed

lemma shown_reset [simp]: "shown (reset_window ui) = (0, 0, 0)"
  by (simp add: shown_def reset_window_def)

lemma check_signals_counters:
  "counters_emitted (check_signals pct u w chunks) = map (\<lambda>c. (0, length c, 0)) chunks"
  by (induction chunks) (simp_all add: check_signals_def check_worker_counters)

lemma check_worker_log:
  "path \<in> set paths \<Longrightarrow>
   Log_message (''Checked: '' @ path @ '' - Owner: '' @ get_owner w path)
     \<in> set (fst (check_loop pct u w tot idx t paths))"
  by (induction paths arbitrary: idx t) (auto simp add: check_loop_Cons simp del: check_loop.simps(2))

section \<open>Signals of the change and revert workers\<close>

lemma change_loop_Cons:
  "change_loop pct u tot idx m t (it # its) =
     (let r1 = change_item u m t it;
          r3 = change_loop pct u tot (Suc idx) (fst (snd r1)) (snd (snd r1)) its
      in (fst r1 @ progress_step pct idx tot @ fst r3, snd r3))"
  by (simp add: split_beta Let_def)

lemma revert_loop_Cons:
  "revert_loop pct tot idx m t (r # rs) =
     (let r1 = revert_item m t r;
          r3 = revert_loop pct tot (Suc idx) (fst (snd r1)) (snd (snd r1)) rs
      in (fst r1 @ progress_step pct idx tot @ fst r3, snd r3))"
  by (simp add: split_beta Let_def)

lemma change_item_signals [simp]:
  "counters_emitted (fst (change_item u m t it)) = []"
  "progress_emitted (fst (change_item u m t it)) = []"
  by (simp_all add: change_item_def set_owner_def Let_def split: option.splits)

lemma revert_item_signals [simp]:
  "counters_emitted (fst (revert_item m t r)) = []"
  "progress_emitted (fst (revert_item m t r)) = []"
  by (simp_all add: revert_item_def set_owner_def delete_change_def Let_def split: option.splits)

lemma change_loop_signals:
  "counters_emitted (fst (change_loop pct u tot idx m t its)) = []"
  "progress_emitted (fst (change_loop pct u tot idx m t its)) =
     map (\<lambda>i. pct i tot) (filter (due tot) [idx..<idx + length its])"
proof (induction its arbitrary: idx m t)
  case Nil
  { case 1 show ?case by simp }
  { case 2 show ?case by simp }
next
  case (Cons it its)
  { case 1 show ?case by (simp add: change_loop_Cons Let_def Cons.IH(1) del: change_loop.simps(2)) }
  { case 2 show ?case
      using due_upt [of pct tot idx "length its"]
      by (simp add: change_loop_Cons Let_def Cons.IH(2) del: change_loop.simps(2)) }
qed

lemma revert_loop_signals:
  "counters_emitted (fst (revert_loop pct tot idx m t rs)) = []"
  "progress_emitted (fst (revert_loop pct tot idx m t rs)) =
     map (\<lambda>i. pct i tot) (filter (due tot) [idx..<idx + length rs])"
proof (induction rs arbitrary: idx m t)
  case Nil
  { case 1 show ?case by simp }
  { case 2 show ?case by simp }
next
  case (Cons r rs)
  { case 1 show ?case by (simp add: revert_loop_Cons Let_def Cons.IH(1) del: revert_loop.simps(2)) }
  { case 2 show ?case
      using due_upt [of pct tot idx "length rs"]
      by (simp add: revert_loop_Cons Let_def Cons.IH(2) del: revert_loop.simps(2)) }
qed

lemma change_worker_progress:
  "progress_emitted (fst (OwnershipChangeWorker_run pct u m its)) =
     map (\<lambda>i. pct i (length its)) (filter (due (length its)) [1..<1 + length its])"
  by (simp add: OwnershipChangeWorker_run_def split_beta Let_def change_loop_signals)

lemma revert_worker_progress:
  "progress_emitted (fst (RevertOwnershipWorker_run pct m rs)) =
     map (\<lambda>i. pct i (length rs)) (filter (due (length rs)) [1..<1 + length rs])"
  by (simp add: RevertOwnershipWorker_run_def split_beta Let_def revert_loop_signals)

lemma reports_last: "0 < n \<Longrightarrow> pct n n = 100 \<Longrightarrow> last (reports pct n) = 100"
proof -
  assume n: "0 < n" and p: "pct n n = 100"
  then obtain k where k: "n = Suc k" by (cases n) auto
  have "[1..<1 + n] = [1..<n] @ [n]" using k by simp
  then have "reports pct n = map (\<lambda>i. pct i n) (filter (due n) [1..<n]) @ [pct n n]"
    by (simp add: reports_def due_def)
  then show ?thesis using p by simp
qed

lemma reports_sorted:
  "(\<forall>i j. i \<le> j \<longrightarrow> pct i n \<le> pct j n) \<Longrightarrow> sorted (reports pct n)"
proof -
  assume mono: "\<forall>i j. i \<le> j \<longrightarrow> pct i n \<le> pct j n"
  have s: "sorted (filter (due n) [1..<1 + n])"
    by (rule sorted_wrt_filter) (rule sorted_upt)
  have "sorted_wrt (\<lambda>x y. pct x n \<le> pct y n) (filter (due n) [1..<1 + n])"
    by (rule sorted_wrt_mono_rel [OF _ s]) (use mono in blast)
  then show ?thesis unfolding reports_def sorted_map .
qed

lemma reports_count: "reports pct n \<noteq> [] \<longleftrightarrow> 0 < n"
  by (auto simp add: reports_def due_def filter_empty_conv intro: bexI[of _ n])

section \<open>Progress stream of a check run\<close>












section \<open>The partition into chunks\<close>

lemma chunks_of_eq:
  "chunks_of k xs = map (\<lambda>j. take k (drop (j * k) xs)) [0..<(length xs + k - 1) div k]"
  by (simp add: chunks_of_def range_step_def slice_def comp_def)

lemma concat_takes:
  "concat (map (\<lambda>j. take k (drop (j * k) xs)) [0..<m]) = take (m * k) xs"
proof (induction m)
  case 0
  then show ?case by simp
next
  case (Suc m)
  have "take (m * k) xs @ take k (drop (m * k) xs) = take (m * k + k) xs"
    by (simp add: take_add)
  then show ?case using Suc by (simp add: add.commute)
qed

lemma ceil_times_ge: "0 < k \<Longrightarrow> n \<le> ((n + k - 1) div k) * (k::nat)"
proof -
  assume k: "0 < k"
  have "n + k - 1 < k + (n + k - 1) div k * k"
    using k by (rule dividend_less_div_times)
  then show ?thesis using k by arith
qed

lemma ceil_pred_times_less:
  "0 < k \<Longrightarrow> 0 < n \<Longrightarrow> ((n + k - 1) div k - 1) * k < (n::nat)"
proof -
  assume k: "0 < k" and n: "0 < n"
  have a: "(n + k - 1) div k * k \<le> n + k - 1" by (rule div_times_less_eq_dividend)
  have b: "0 < (n + k - 1) div k" using k n by (simp add: div_greater_zero_iff)
  have "((n + k - 1) div k - 1) * k = (n + k - 1) div k * k - k"
    by (simp add: diff_mult_distrib)
  then show ?thesis using a b k n by arith
qed

lemma concat_chunks_of: "0 < k \<Longrightarrow> concat (chunks_of k xs) = xs"
  using ceil_times_ge [of k "length xs"] by (simp only: chunks_of_eq concat_takes take_all)

lemma length_chunks_of: "length (chunks_of k xs) = (length xs + k - 1) div k"
  by (simp add: chunks_of_eq)

lemma nth_chunks_of:
  "j < length (chunks_of k xs) \<Longrightarrow> chunks_of k xs ! j = take k (drop (j * k) xs)"
  by (simp add: chunks_of_eq)

lemma full_chunks:
  assumes k: "0 < k" and j: "Suc j < length (chunks_of k xs)"
  shows "length (chunks_of k xs ! j) = k"
proof -
  let ?m = "(length xs + k - 1) div k"
  have m: "Suc j < ?m" using j by (simp add: length_chunks_of)
  have n: "0 < length xs"
  proof (rule ccontr)
    assume "\<not> 0 < length xs"
    then have "?m = 0" using k by simp
    then show False using m by simp
  qed
  have "Suc j * k \<le> (?m - 1) * k" using m by (intro mult_le_mono1) arith
  also have "\<dots> < length xs" using k n by (rule ceil_pred_times_less)
  finally have "j * k + k \<le> length xs" by simp
  then show ?thesis using m by (simp add: chunks_of_eq)
qed

lemma last_chunk:
  assumes k: "0 < k" and ne: "chunks_of k xs \<noteq> []"
  shows "last (chunks_of k xs) = drop ((length (chunks_of k xs) - 1) * k) xs"
    and "0 < length (last (chunks_of k xs))"
    and "length (last (chunks_of k xs)) \<le> k"
proof -
  let ?m = "(length xs + k - 1) div k"
  have m: "0 < ?m" using ne by (simp add: chunks_of_eq)
  have n: "0 < length xs"
  proof (rule ccontr)
    assume "\<not> 0 < length xs"
    then have "?m = 0" using k by simp
    then show False using m by simp
  qed
  have l: "last (chunks_of k xs) = take k (drop ((?m - 1) * k) xs)"
    using m by (simp add: chunks_of_eq last_map last_upt)
  have lt: "(?m - 1) * k < length xs" using k n by (rule ceil_pred_times_less)
  have ge: "length xs \<le> ?m * k" using k by (rule ceil_times_ge)
  have "?m * k = (?m - 1) * k + k" using m by (simp add: diff_mult_distrib)
  then have le: "length xs - (?m - 1) * k \<le> k" using ge by arith
  show "last (chunks_of k xs) = drop ((length (chunks_of k xs) - 1) * k) xs"
    unfolding l length_chunks_of using le by simp
  show "0 < length (last (chunks_of k xs))" unfolding l using lt k by simp
  show "length (last (chunks_of k xs)) \<le> k" unfolding l by simp
qed

lemma chunk_count_ge:
  assumes T: "0 < (T::nat)" and q: "k = n div T" and k: "0 < k"
  shows "T \<le> (n + k - 1) div k" and "(n + k - 1) div k = T \<longleftrightarrow> n mod T = 0"
proof -
  let ?r = "n mod T"
  have n: "n = T * k + ?r" unfolding q by (rule mult_div_mod_eq [symmetric])
  have "n + k - 1 = (?r + k - 1) + T * k" using n k by arith
  then have "(n + k - 1) div k = (?r + k - 1 + T * k) div k" by simp
  also have "\<dots> = (?r + k - 1) div k + T" using k div_mult_self1 [of k "?r + k - 1" T] by simp
  finally have e: "(n + k - 1) div k = (?r + k - 1) div k + T" .
  show "T \<le> (n + k - 1) div k" using e by simp
  have "(?r + k - 1) div k = 0 \<longleftrightarrow> ?r = 0"
    using k by (auto simp add: div_eq_0_iff)
  then show "(n + k - 1) div k = T \<longleftrightarrow> n mod T = 0" using e by simp
qed

lemma chunk_size_of_eq:
  "mtc \<noteq> 0 \<Longrightarrow> chunk_size_of mtc n = Inr (nat (max 1 (int n div min 4 mtc)))"
  by (simp add: chunk_size_of_def Let_def min_def)

lemma chunk_count_threads:
  assumes m: "0 < mtc" and n: "min 4 mtc \<le> int n" and k: "k = nat (max 1 (int n div min 4 mtc))"
  shows "nat (min 4 mtc) \<le> (n + k - 1) div k"
    and "(n + k - 1) div k = nat (min 4 mtc) \<longleftrightarrow> int n mod min 4 mtc = 0"
proof -
  let ?T = "nat (min 4 mtc)"
  have T: "0 < ?T" using m by simp
  have iT: "int ?T = min 4 mtc" using m by simp
  have d: "int n div min 4 mtc = int (n div ?T)"
    using zdiv_int [of n ?T] iT by simp
  have md: "int n mod min 4 mtc = int (n mod ?T)"
    using zmod_int [of n ?T] iT by simp
  have ge: "?T \<le> n" using n m by linarith
  then have q: "1 \<le> n div ?T" using T by (simp add: div_greater_zero_iff Suc_le_eq)
  have kq: "k = n div ?T" unfolding k d using q by simp
  have kp: "0 < k" using kq q by simp
  show "?T \<le> (n + k - 1) div k" using T kq kp by (rule chunk_count_ge(1))
  show "(n + k - 1) div k = ?T \<longleftrightarrow> int n mod min 4 mtc = 0"
    unfolding md using chunk_count_ge(2) [OF T kq kp] by simp
qed

section \<open>Path expansion\<close>

lemma expand_d: "expand_root nested_fs ''/d'' = [''/d/sub'', ''/d/g'', ''/d/sub/f'']"
  by (simp add: expand_root_def nested_fs_def path_join_def)

lemma expand_sub: "expand_root nested_fs ''/d/sub'' = [''/d/sub/f'']"
  by (simp add: expand_root_def nested_fs_def path_join_def)

lemma expand_g: "expand_root nested_fs ''/d/g'' = [''/d/g'']"
  by (simp add: expand_root_def nested_fs_def)

lemma expand_e: "expand_root nested_fs ''/e'' = []"
  by (simp add: expand_root_def nested_fs_def)

lemma path_join_longer:
  "n \<noteq> [] \<Longrightarrow> hd n \<noteq> CHR ''/'' \<Longrightarrow> length root < length (path_join root n)"
  by (simp add: path_join_def)

lemma walk_longer:
  "names_ok t \<Longrightarrow> p \<in> set (walk root t) \<Longrightarrow> length root < length p"
proof (induction t arbitrary: root p)
  case File
  then show ?case by simp
next
  case (Dir es)
  from Dir.prems(2) consider
    (here) e where "e \<in> set es" "p = path_join root (fst e)"
  | (below) e where "e \<in> set es" "is_dir (snd e)" "p \<in> set (walk (path_join root (fst e)) (snd e))"
    by auto
  then show ?case
  proof cases
    case here
    then show ?thesis using Dir.prems(1) by (auto intro: path_join_longer)
  next
    case below
    have ok: "fst e \<noteq> []" "hd (fst e) \<noteq> CHR ''/''" "names_ok (snd e)"
      using Dir.prems(1) below(1) by auto
    have "snd e \<in> Basic_BNFs.snds e" by (cases e) simp
    then have "length (path_join root (fst e)) < length p"
      using Dir.IH [of e "snd e" p "path_join root (fst e)"] below ok by simp
    moreover have "length root < length (path_join root (fst e))"
      using ok by (intro path_join_longer)
    ultimately show ?thesis by simp
  qed
qed

section \<open>Effect of the change worker\<close>

lemma machine_os_id [simp]: "m\<lparr>os := os m\<rparr> = m"
  by simp

lemma change_item_refused:
  "refusal (os m) (item_path it) u = Some reason \<Longrightarrow>
   change_item u m t it =
     ([Log_message (''Failed to change owner for '' @ item_path it @ '': '' @ reason)],
      m, t\<lparr>errors := errors t + 1\<rparr>)"
  by (simp add: change_item_def set_owner_def Let_def)

lemma change_item_allowed:
  "refusal (os m) (item_path it) u = None \<Longrightarrow>
   change_item u m t it =
     ([Log_message (''Ownership changed for '' @ item_path it @ '' to '' @ u)],
      \<lparr>os = (os m)\<lparr>owner_of := (owner_of (os m))(item_path it \<mapsto> u)\<rparr>,
       db = record_change (db m) (item_path it) (item_original_owner it) u\<rparr>,
      t\<lparr>changed := changed t + 1\<rparr>)"
  by (simp add: change_item_def set_owner_def get_owner_def Let_def)

lemma record_change_other_path:
  "q \<noteq> p \<Longrightarrow>
   filter (\<lambda>r. rec_path r = q) (rows (record_change d p orig cur)) =
   filter (\<lambda>r. rec_path r = q) (rows d)"
  by (simp add: record_change_def split: option.splits)

lemma record_change_outage [simp]: "outage (record_change d p orig cur) = outage d"
  by (simp add: record_change_def split: option.splits)

lemma change_loop_effect:
  "refusal (os (fst (snd (change_loop pct u tot idx m t its)))) = refusal (os m) \<and>
   changed (snd (snd (change_loop pct u tot idx m t its))) =
     changed t + length (filter (\<lambda>it. \<not> refused_item (os m) u it) its) \<and>
   errors (snd (snd (change_loop pct u tot idx m t its))) =
     errors t + length (filter (refused_item (os m) u) its) \<and>
   unchanged (snd (snd (change_loop pct u tot idx m t its))) = unchanged t \<and>
   (\<forall>p. refusal (os m) p u \<noteq> None \<longrightarrow>
      owner_of (os (fst (snd (change_loop pct u tot idx m t its)))) p = owner_of (os m) p \<and>
      filter (\<lambda>r. rec_path r = p) (rows (db (fst (snd (change_loop pct u tot idx m t its))))) =
      filter (\<lambda>r. rec_path r = p) (rows (db m)))"
proof (induction its arbitrary: idx m t)
  case Nil
  show ?case by simp
next
  case (Cons it its)
  show ?case
  proof (cases "refusal (os m) (item_path it) u")
    case None
    let ?m1 = "\<lparr>os = (os m)\<lparr>owner_of := (owner_of (os m))(item_path it \<mapsto> u)\<rparr>,
       db = record_change (db m) (item_path it) (item_original_owner it) u\<rparr>"
    let ?t1 = "t\<lparr>changed := changed t + 1\<rparr>"
    have step: "snd (change_loop pct u tot idx m t (it # its)) =
                snd (change_loop pct u tot (Suc idx) ?m1 ?t1 its)"
      by (simp add: change_loop_Cons change_item_allowed [OF None] Let_def del: change_loop.simps(2))
    have r: "refusal (os ?m1) = refusal (os m)" by simp
    have ri: "refused_item (os ?m1) u = refused_item (os m) u"
      by (simp add: refused_item_def fun_eq_iff)
    have nr: "\<not> refused_item (os m) u it" using None by (simp add: refused_item_def)
    note IH = Cons.IH [of "Suc idx" ?m1 ?t1, unfolded r ri]
    show ?thesis
      unfolding step
      using IH None nr
      by (auto simp add: record_change_other_path)
  next
    case (Some reason)
    let ?t1 = "t\<lparr>errors := errors t + 1\<rparr>"
    have step: "snd (change_loop pct u tot idx m t (it # its)) =
                snd (change_loop pct u tot (Suc idx) m ?t1 its)"
      by (simp add: change_loop_Cons change_item_refused [OF Some] Let_def del: change_loop.simps(2))
    have nr: "refused_item (os m) u it" using Some by (simp add: refused_item_def)
    show ?thesis
      unfolding step
      using Cons.IH [of "Suc idx" m ?t1] nr
      by simp
  qed
qed

lemma change_worker_counters:
  "counters_emitted (fst (OwnershipChangeWorker_run pct u m items)) =
     [(length (filter (\<lambda>it. \<not> refused_item (os m) u it) items), 0,
       length (filter (refused_item (os m) u) items))]"
  using change_loop_effect [of pct u "length items" 1 m zero_counters items]
  by (simp add: OwnershipChangeWorker_run_def split_beta Let_def change_loop_signals zero_counters_def)

lemma change_worker_machine:
  "snd (OwnershipChangeWorker_run pct u m items) =
     fst (snd (change_loop pct u (length items) 1 m zero_counters items))"
  by (simp add: OwnershipChangeWorker_run_def split_beta Let_def)

section \<open>Effect of the revert worker\<close>

lemma revert_item_refused:
  "refusal (os m) (rec_path r) (original_owner r) = Some reason \<Longrightarrow>
   revert_item m t r =
     ([Log_message (''Failed to revert owner for '' @ rec_path r @ '': '' @ reason)],
      m, t\<lparr>errors := errors t + 1\<rparr>)"
  by (simp add: revert_item_def set_owner_def Let_def)

lemma revert_item_allowed:
  "refusal (os m) (rec_path r) (original_owner r) = None \<Longrightarrow> outage (db m) = None \<Longrightarrow>
   revert_item m t r =
     ([Log_message (''Reverted ownership for '' @ rec_path r @ '' to '' @ original_owner r)],
      \<lparr>os = (os m)\<lparr>owner_of := (owner_of (os m))(rec_path r \<mapsto> original_owner r)\<rparr>,
       db = (db m)\<lparr>rows := filter (\<lambda>x. rec_id x \<noteq> rec_id r) (rows (db m))\<rparr>\<rparr>,
      t\<lparr>changed := changed t + 1\<rparr>)"
  by (simp add: revert_item_def set_owner_def delete_change_def Let_def)

lemma revert_item_outage:
  "refusal (os m) (rec_path r) (original_owner r) = None \<Longrightarrow> outage (db m) = Some msg \<Longrightarrow>
   revert_item m t r =
     ([Log_message (''Reverted ownership for '' @ rec_path r @ '' to '' @ original_owner r),
       Log_message (''Error reverting ownership for '' @ rec_path r @ '': '' @ msg)],
      m\<lparr>os := (os m)\<lparr>owner_of := (owner_of (os m))(rec_path r \<mapsto> original_owner r)\<rparr>\<rparr>,
      t\<lparr>errors := errors t + 1\<rparr>)"
  by (simp add: revert_item_def set_owner_def delete_change_def Let_def)

lemma revert_loop_effect:
  "outage (db m) = None \<Longrightarrow>
   refusal (os (fst (snd (revert_loop pct tot idx m t rs)))) = refusal (os m) \<and>
   outage (db (fst (snd (revert_loop pct tot idx m t rs)))) = None \<and>
   changed (snd (snd (revert_loop pct tot idx m t rs))) =
     changed t + length (filter (\<lambda>r. \<not> refused_record (os m) r) rs) \<and>
   errors (snd (snd (revert_loop pct tot idx m t rs))) =
     errors t + length (filter (refused_record (os m)) rs) \<and>
   unchanged (snd (snd (revert_loop pct tot idx m t rs))) = unchanged t \<and>
   rows (db (fst (snd (revert_loop pct tot idx m t rs)))) =
     filter (\<lambda>x. rec_id x \<notin> rec_id ` {r \<in> set rs. \<not> refused_record (os m) r}) (rows (db m))"
proof (induction rs arbitrary: idx m t)
  case Nil
  then show ?case by simp
next
  case (Cons r rs)
  show ?case
  proof (cases "refusal (os m) (rec_path r) (original_owner r)")
    case None
    let ?m1 = "\<lparr>os = (os m)\<lparr>owner_of := (owner_of (os m))(rec_path r \<mapsto> original_owner r)\<rparr>,
       db = (db m)\<lparr>rows := filter (\<lambda>x. rec_id x \<noteq> rec_id r) (rows (db m))\<rparr>\<rparr>"
    let ?t1 = "t\<lparr>changed := changed t + 1\<rparr>"
    have step: "snd (revert_loop pct tot idx m t (r # rs)) =
                snd (revert_loop pct tot (Suc idx) ?m1 ?t1 rs)"
      by (simp add: revert_loop_Cons revert_item_allowed [OF None Cons.prems] Let_def
          del: revert_loop.simps(2))
    have o: "outage (db ?m1) = None" using Cons.prems by simp
    have ri: "refused_record (os ?m1) = refused_record (os m)"
      by (simp add: refused_record_def fun_eq_iff)
    have nr: "\<not> refused_record (os m) r" using None by (simp add: refused_record_def)
    have rf: "refusal (os ?m1) = refusal (os m)" by simp
    note IH = Cons.IH [OF o, of "Suc idx" ?t1, unfolded ri rf]
    have rowsq: "rows (db ?m1) = filter (\<lambda>x. rec_id x \<noteq> rec_id r) (rows (db m))" by simp
    show ?thesis
      unfolding step
      using IH nr
      by (auto simp add: rowsq intro!: filter_cong)
  next
    case (Some reason)
    let ?t1 = "t\<lparr>errors := errors t + 1\<rparr>"
    have step: "snd (revert_loop pct tot idx m t (r # rs)) =
                snd (revert_loop pct tot (Suc idx) m ?t1 rs)"
      by (simp add: revert_loop_Cons revert_item_refused [OF Some] Let_def
          del: revert_loop.simps(2))
    have nr: "refused_record (os m) r" using Some by (simp add: refused_record_def)
    show ?thesis
      unfolding step
      using Cons.IH [OF Cons.prems, of "Suc idx" ?t1] nr
      by (auto intro!: filter_cong)
  qed
qed

lemma revert_worker_counters:
  "outage (db m) = None \<Longrightarrow>
   counters_emitted (fst (RevertOwnershipWorker_run pct m records)) =
     [(length (filter (\<lambda>r. \<not> refused_record (os m) r) records), 0,
       length (filter (refused_record (os m)) records))]"
  using revert_loop_effect [of m pct "length records" 1 zero_counters records]
  by (simp add: RevertOwnershipWorker_run_def split_beta Let_def revert_loop_signals zero_counters_def)

lemma revert_worker_machine:
  "snd (RevertOwnershipWorker_run pct m records) =
     fst (snd (revert_loop pct (length records) 1 m zero_counters records))"
  by (simp add: RevertOwnershipWorker_run_def split_beta Let_def)

lemma revert_worker_rows:
  "outage (db m) = None \<Longrightarrow>
   rows (db (snd (RevertOwnershipWorker_run pct m records))) =
     filter (\<lambda>x. rec_id x \<notin> rec_id ` {r \<in> set records. \<not> refused_record (os m) r}) (rows (db m))"
  using revert_loop_effect [of m pct "length records" 1 zero_counters records]
  by (simp add: revert_worker_machine)

lemma revert_item_outage_effect:
  "outage (db m) = Some msg \<Longrightarrow>
   outage (db (fst (snd (revert_item m t r)))) = Some msg \<and>
   rows (db (fst (snd (revert_item m t r)))) = rows (db m) \<and>
   changed (snd (snd (revert_item m t r))) = changed t \<and>
   unchanged (snd (snd (revert_item m t r))) = unchanged t \<and>
   errors (snd (snd (revert_item m t r))) = errors t + 1"
  by (cases "refusal (os m) (rec_path r) (original_owner r)")
     (simp_all add: revert_item_outage revert_item_refused)

lemma revert_loop_outage_effect:
  "outage (db m) = Some msg \<Longrightarrow>
   rows (db (fst (snd (revert_loop pct tot idx m t rs)))) = rows (db m) \<and>
   changed (snd (snd (revert_loop pct tot idx m t rs))) = changed t \<and>
   unchanged (snd (snd (revert_loop pct tot idx m t rs))) = unchanged t \<and>
   errors (snd (snd (revert_loop pct tot idx m t rs))) = errors t + length rs"
proof (induction rs arbitrary: idx m t)
  case Nil
  then show ?case by simp
next
  case (Cons r rs)
  let ?m1 = "fst (snd (revert_item m t r))"
  let ?t1 = "snd (snd (revert_item m t r))"
  note e = revert_item_outage_effect [OF Cons.prems, of t r]
  have step: "snd (revert_loop pct tot idx m t (r # rs)) =
              snd (revert_loop pct tot (Suc idx) ?m1 ?t1 rs)"
    by (simp add: revert_loop_Cons split_beta Let_def del: revert_loop.simps(2))
  have o: "outage (db ?m1) = Some msg" using e by blast
  show ?case
    unfolding step using Cons.IH [OF o, of "Suc idx" ?t1] e by simp
qed

lemma revert_worker_outage:
  "outage (db m) = Some msg \<Longrightarrow>
   counters_emitted (fst (RevertOwnershipWorker_run pct m records)) = [(0, 0, length records)] \<and>
   rows (db (snd (RevertOwnershipWorker_run pct m records))) = rows (db m)"
  using revert_loop_outage_effect [of m msg pct "length records" 1 zero_counters records]
  by (simp add: RevertOwnershipWorker_run_def split_beta Let_def revert_loop_signals zero_counters_def)







section \<open>C1: the counters of a run and the number of its items\<close>

text \<open>
  Claim C1 says that after every run \<open>changed + unchanged + errors\<close> equals the number of
  items processed, also when the run is split into chunks. The check run below has two
  items, \<open>/a\<close> and \<open>/b\<close>, both regular files owned by bob, on a pool of four threads:
  path expansion yields both, the partition puts each in a chunk of its own, each
  worker emits the tally \<open>(0, 1, 0)\<close>, and \<open>update_counters\<close> overwrites the labels with
  each tally it receives. The window ends with \<open>(0, 1, 0)\<close>: the counters add up to 1,
  the run had 2 items.
\<close>

theorem check_run_counters_lose_chunks:
  "collect [''/a'' \<mapsto> File, ''/b'' \<mapsto> File] [''/a'', ''/b''] = [''/a'', ''/b''] \<and>
   make_chunks 4 [''/a'', ''/b''] = Inr [[''/a''], [''/b'']] \<and>
   shown (check_ownership_info exact_percent 4 ''alice'' [''/a'' \<mapsto> File, ''/b'' \<mapsto> File]
            bob_world [''/a'', ''/b''] [] blank_window) = (0, 1, 0)"
proof -
  have c: "collect [''/a'' \<mapsto> File, ''/b'' \<mapsto> File] [''/a'', ''/b''] = [''/a'', ''/b'']"
    by (simp add: collect_def expand_root_def)
  have m: "make_chunks 4 [''/a'', ''/b''] = Inr [[''/a''], [''/b'']]"
    by (simp add: make_chunks_def chunk_size_of_def chunks_of_def range_step_def slice_def)
  have "shown (check_ownership_info exact_percent 4 ''alice'' [''/a'' \<mapsto> File, ''/b'' \<mapsto> File]
            bob_world [''/a'', ''/b''] [] blank_window) = (0, 1, 0)"
    unfolding check_ownership_info_def
    by (simp add: c m Let_def shown_deliver check_signals_counters del: fun_upd_apply)
  with c m show ?thesis by blast
qed

section \<open>C2: the counters of a run and the tallies of its chunks\<close>

text \<open>
  Claim C2 says that the final counters of a run in several chunks are the element-wise
  sum of the tallies the workers emit. The check run below has three items on a pool
  of two threads: the chunk size is \<open>max(1, 3 // 2) = 1\<close>, so there are three chunks;
  the three workers emit \<open>(0, 1, 0)\<close> each, which sum to \<open>(0, 3, 0)\<close>, and the window
  ends with \<open>(0, 1, 0)\<close>, the tally delivered last.
\<close>

theorem check_run_counters_not_summed:
  "make_chunks 2 [''/a'', ''/b'', ''/c''] = Inr [[''/a''], [''/b''], [''/c'']] \<and>
   counters_emitted (check_signals exact_percent ''alice'' bob_world [[''/a''], [''/b''], [''/c'']])
     = [(0, 1, 0), (0, 1, 0), (0, 1, 0)] \<and>
   sum_tallies (counters_emitted
     (check_signals exact_percent ''alice'' bob_world [[''/a''], [''/b''], [''/c'']])) = (0, 3, 0) \<and>
   shown (check_ownership_info exact_percent 2 ''alice''
            [''/a'' \<mapsto> File, ''/b'' \<mapsto> File, ''/c'' \<mapsto> File]
            bob_world [''/a'', ''/b'', ''/c''] [] blank_window) = (0, 1, 0)"
proof -
  have c: "collect [''/a'' \<mapsto> File, ''/b'' \<mapsto> File, ''/c'' \<mapsto> File] [''/a'', ''/b'', ''/c'']
           = [''/a'', ''/b'', ''/c'']"
    by (simp add: collect_def expand_root_def)
  have m: "make_chunks 2 [''/a'', ''/b'', ''/c''] = Inr [[''/a''], [''/b''], [''/c'']]"
    by (simp add: make_chunks_def chunk_size_of_def chunks_of_def range_step_def slice_def)
  have e: "counters_emitted (check_signals exact_percent ''alice'' bob_world [[''/a''], [''/b''], [''/c'']])
     = [(0, 1, 0), (0, 1, 0), (0, 1, 0)]"
    by (simp add: check_signals_counters)
  have s: "shown (check_ownership_info exact_percent 2 ''alice''
            [''/a'' \<mapsto> File, ''/b'' \<mapsto> File, ''/c'' \<mapsto> File]
            bob_world [''/a'', ''/b'', ''/c''] [] blank_window) = (0, 1, 0)"
    unfolding check_ownership_info_def
    by (simp add: c m Let_def shown_deliver check_signals_counters del: fun_upd_apply)
  show ?thesis using m e s by simp
qed

section \<open>C3: roots that overlap\<close>

text \<open>
  Claim C3 says that the collected sequence holds no path twice, also when the selected
  roots overlap or are nested. The loop appends what each root expands to and never
  looks at what is already collected. With \<open>/d\<close> and \<open>/d/sub\<close> both selected, the file
  \<open>/d/sub/f\<close> is collected twice, once under each root; with the file \<open>/d/g\<close> and the
  folder \<open>/d\<close> selected, \<open>/d/g\<close> is collected twice; and a file selected twice is collected
  twice.
\<close>

theorem collect_repeats_nested_paths:
  "collect nested_fs [''/d'', ''/d/sub''] = [''/d/sub'', ''/d/g'', ''/d/sub/f'', ''/d/sub/f''] \<and>
   \<not> distinct (collect nested_fs [''/d'', ''/d/sub'']) \<and>
   collect nested_fs [''/d/g'', ''/d''] = [''/d/g'', ''/d/sub'', ''/d/g'', ''/d/sub/f''] \<and>
   \<not> distinct (collect nested_fs [''/d/g'', ''/d'']) \<and>
   collect nested_fs [''/d/g'', ''/d/g''] = [''/d/g'', ''/d/g'']"
proof -
  have 1: "collect nested_fs [''/d'', ''/d/sub''] = [''/d/sub'', ''/d/g'', ''/d/sub/f'', ''/d/sub/f'']"
    by (simp add: collect_def expand_d expand_sub)
  have 2: "collect nested_fs [''/d/g'', ''/d''] = [''/d/g'', ''/d/sub'', ''/d/g'', ''/d/sub/f'']"
    by (simp add: collect_def expand_d expand_g)
  have 3: "collect nested_fs [''/d/g'', ''/d/g''] = [''/d/g'', ''/d/g'']"
    by (simp add: collect_def expand_g)
  have 4: "\<not> distinct (collect nested_fs [''/d'', ''/d/sub''])" unfolding 1 by simp
  have 5: "\<not> distinct (collect nested_fs [''/d/g'', ''/d''])" unfolding 2 by simp
  from 1 2 3 4 5 show ?thesis by blast
qed

section \<open>C4: the selected directory itself\<close>

text \<open>
  Claim C4 says that a selected directory is itself an entry of the collected sequence.
  The loop over \<open>os.walk(path)\<close> appends, for every directory visited, the joined names
  of its sub-directories and files, and nothing for the directory it started from. For
  every selected directory with a well-formed listing, what is collected for it is the
  walk of its tree, every collected path is strictly longer than the selected path, and
  so the selected directory is not among them.
\<close>

theorem expansion_omits_root:
  "fs root = Some (Dir es) \<Longrightarrow> names_ok (Dir es) \<Longrightarrow>
   collect fs [root] = walk root (Dir es) \<and>
   root \<notin> set (collect fs [root]) \<and>
   (\<forall>p \<in> set (collect fs [root]). length root < length p)"
proof -
  assume f: "fs root = Some (Dir es)" and ok: "names_ok (Dir es)"
  have c: "collect fs [root] = walk root (Dir es)"
    using f by (simp add: collect_def expand_root_def)
  have l: "\<forall>p \<in> set (walk root (Dir es)). length root < length p"
    using walk_longer [OF ok] by blast
  then have "root \<notin> set (walk root (Dir es))" by blast
  then show ?thesis using c l by simp
qed

text \<open>
  On the file system above: \<open>/d\<close> yields its three descendants and not itself, and the
  empty directory \<open>/e\<close> yields nothing.
\<close>

theorem expansion_omits_root_witness:
  "nested_fs ''/d'' = Some (Dir [(''sub'', Dir [(''f'', File)]), (''g'', File)]) \<and>
   names_ok (Dir [(''sub'', Dir [(''f'', File)]), (''g'', File)]) \<and>
   collect nested_fs [''/d''] = [''/d/sub'', ''/d/g'', ''/d/sub/f''] \<and>
   ''/d'' \<notin> set (collect nested_fs [''/d'']) \<and>
   ''/d/sub'' \<in> set (collect nested_fs [''/d'']) \<and>
   length ''/d'' < length ''/d/sub'' \<and>
   nested_fs ''/e'' = Some (Dir []) \<and> names_ok (Dir []) \<and>
   collect nested_fs [''/e''] = []"
proof -
  have f: "nested_fs ''/d'' = Some (Dir [(''sub'', Dir [(''f'', File)]), (''g'', File)])"
    by (simp add: nested_fs_def)
  have ok: "names_ok (Dir [(''sub'', Dir [(''f'', File)]), (''g'', File)])" by simp
  have fe: "nested_fs ''/e'' = Some (Dir [])" by (simp add: nested_fs_def)
  have oke: "names_ok (Dir [])" by simp
  note t = expansion_omits_root [where fs = nested_fs and root = "''/d''", OF f ok]
  note te = expansion_omits_root [where fs = nested_fs and root = "''/e''", OF fe oke]
  have 1: "collect nested_fs [''/d''] = [''/d/sub'', ''/d/g'', ''/d/sub/f'']"
    using t by (simp add: path_join_def)
  have 2: "''/d'' \<notin> set (collect nested_fs [''/d''])" using t by blast
  have 3: "''/d/sub'' \<in> set (collect nested_fs [''/d''])" unfolding 1 by simp
  have 4: "length ''/d'' < length ''/d/sub''" using t 3 by blast
  have 5: "collect nested_fs [''/e''] = []" using te by simp
  from f ok 1 2 3 4 fe oke 5 show ?thesis by blast
qed

section \<open>C5: a change the platform refuses\<close>

text \<open>
  Claim C5. When \<open>set_owner\<close> fails on the path of an item of a change run, that
  iteration logs the failure, adds exactly one to \<open>errors\<close>, leaves \<open>changed\<close> as it is
  and leaves the whole machine (owners and audit table) as it is. Over a whole run the
  worker's tally counts the refused items under \<open>errors\<close> and the others under
  \<open>changed\<close>; and for every refused item of the run, the owner of its path and the rows
  of the audit table for its path are after the run what they were before it.
\<close>

theorem change_failure_counts_one_error:
  "(refusal (os m) (item_path it) u = Some reason \<longrightarrow>
      change_item u m t it =
        ([Log_message (''Failed to change owner for '' @ item_path it @ '': '' @ reason)],
         m, t\<lparr>errors := errors t + 1\<rparr>)) \<and>
   counters_emitted (fst (OwnershipChangeWorker_run pct u m items)) =
     [(length (filter (\<lambda>it. \<not> refused_item (os m) u it) items), 0,
       length (filter (refused_item (os m) u) items))] \<and>
   (\<forall>it \<in> set items. refused_item (os m) u it \<longrightarrow>
      owner_of (os (snd (OwnershipChangeWorker_run pct u m items))) (item_path it) =
        owner_of (os m) (item_path it) \<and>
      filter (\<lambda>r. rec_path r = item_path it)
             (rows (db (snd (OwnershipChangeWorker_run pct u m items)))) =
        filter (\<lambda>r. rec_path r = item_path it) (rows (db m)))"
proof (intro conjI impI ballI)
  show "change_item u m t it =
        ([Log_message (''Failed to change owner for '' @ item_path it @ '': '' @ reason)],
         m, t\<lparr>errors := errors t + 1\<rparr>)"
    if "refusal (os m) (item_path it) u = Some reason"
    using that by (rule change_item_refused)
  show "counters_emitted (fst (OwnershipChangeWorker_run pct u m items)) =
     [(length (filter (\<lambda>it. \<not> refused_item (os m) u it) items), 0,
       length (filter (refused_item (os m) u) items))]"
    by (rule change_worker_counters)
next
  fix x assume x: "x \<in> set items" "refused_item (os m) u x"
  then have r: "refusal (os m) (item_path x) u \<noteq> None" by (simp add: refused_item_def)
  note e = change_loop_effect [of pct u "length items" 1 m zero_counters items]
  show "owner_of (os (snd (OwnershipChangeWorker_run pct u m items))) (item_path x) =
        owner_of (os m) (item_path x)"
    unfolding change_worker_machine using e r by blast
  show "filter (\<lambda>r. rec_path r = item_path x)
             (rows (db (snd (OwnershipChangeWorker_run pct u m items)))) =
        filter (\<lambda>r. rec_path r = item_path x) (rows (db m))"
    unfolding change_worker_machine using e r by blast
qed

theorem change_failure_counts_one_error_witness:
  "refusal (os demo_machine) (item_path locked_item) ''alice'' = Some ''denied'' \<and>
   change_item ''alice'' demo_machine zero_counters locked_item =
     ([Log_message ''Failed to change owner for /locked: denied''],
      demo_machine, \<lparr>changed = 0, unchanged = 0, errors = 1\<rparr>) \<and>
   counters_emitted
     (fst (OwnershipChangeWorker_run exact_percent ''alice'' demo_machine [a_item, locked_item]))
     = [(1, 0, 1)] \<and>
   locked_item \<in> set [a_item, locked_item] \<and>
   refused_item (os demo_machine) ''alice'' locked_item \<and>
   owner_of (os (snd (OwnershipChangeWorker_run exact_percent ''alice'' demo_machine
                        [a_item, locked_item]))) ''/locked'' = None \<and>
   filter (\<lambda>r. rec_path r = ''/locked'')
      (rows (db (snd (OwnershipChangeWorker_run exact_percent ''alice'' demo_machine
                        [a_item, locked_item])))) = []"
proof -
  have h: "refusal (os demo_machine) (item_path locked_item) ''alice'' = Some ''denied''"
    by (simp add: demo_machine_def demo_world_def locked_item_def)
  have rl: "refused_item (os demo_machine) ''alice'' locked_item"
    by (simp add: refused_item_def demo_machine_def demo_world_def locked_item_def)
  have ra: "\<not> refused_item (os demo_machine) ''alice'' a_item"
    by (simp add: refused_item_def demo_machine_def demo_world_def a_item_def)
  have mem: "locked_item \<in> set [a_item, locked_item]" by simp
  note t = change_failure_counts_one_error [of demo_machine locked_item "''alice''" "''denied''"
      zero_counters exact_percent "[a_item, locked_item]"]
  have 1: "change_item ''alice'' demo_machine zero_counters locked_item =
     ([Log_message ''Failed to change owner for /locked: denied''],
      demo_machine, \<lparr>changed = 0, unchanged = 0, errors = 1\<rparr>)"
    using t h by (simp add: locked_item_def zero_counters_def)
  have 2: "counters_emitted
     (fst (OwnershipChangeWorker_run exact_percent ''alice'' demo_machine [a_item, locked_item]))
     = [(1, 0, 1)]"
    using t rl ra by simp
  have 3: "owner_of (os (snd (OwnershipChangeWorker_run exact_percent ''alice'' demo_machine
                        [a_item, locked_item]))) (item_path locked_item) =
           owner_of (os demo_machine) (item_path locked_item) \<and>
      filter (\<lambda>r. rec_path r = item_path locked_item)
             (rows (db (snd (OwnershipChangeWorker_run exact_percent ''alice'' demo_machine
                        [a_item, locked_item])))) =
        filter (\<lambda>r. rec_path r = item_path locked_item) (rows (db demo_machine))"
    using t rl mem by blast
  have 4: "owner_of (os demo_machine) (item_path locked_item) = None"
    "rows (db demo_machine) = []" "item_path locked_item = ''/locked''"
    by (simp_all add: demo_machine_def demo_world_def locked_item_def empty_db_def)
  from h 1 2 mem rl 3 4 show ?thesis by simp
qed

section \<open>C6: outcome of a revert, record by record\<close>

text \<open>
  Claim C6 says that whenever \<open>set_owner(path, original_owner)\<close> succeeds the record is
  deleted and \<open>changed\<close> is incremented. The DELETE runs inline in the worker's \<open>try\<close>:
  in a machine whose audit database is locked, reverting the record of \<open>/a\<close> sets the
  owner back to bob (\<open>set_owner\<close> succeeds), then the DELETE raises, the \<open>except\<close> branch
  logs the error and increments \<open>errors\<close>; \<open>changed\<close> stays 0 and the record stays in
  the table.
\<close>

theorem revert_store_failure_counterexample:
  "fst (set_owner (os stuck_machine) (rec_path rec_a) (original_owner rec_a)) = (True, []) \<and>
   revert_item stuck_machine zero_counters rec_a =
     ([Log_message ''Reverted ownership for /a to bob'',
       Log_message ''Error reverting ownership for /a: database is locked''],
      stuck_machine\<lparr>os := (os stuck_machine)
         \<lparr>owner_of := (owner_of (os stuck_machine))(''/a'' \<mapsto> ''bob'')\<rparr>\<rparr>,
      \<lparr>changed = 0, unchanged = 0, errors = 1\<rparr>) \<and>
   rows (db (fst (snd (revert_item stuck_machine zero_counters rec_a)))) = [rec_a, rec_locked] \<and>
   counters_emitted (fst (RevertOwnershipWorker_run exact_percent stuck_machine [rec_a]))
     = [(0, 0, 1)]"
proof -
  have r: "refusal (os stuck_machine) (rec_path rec_a) (original_owner rec_a) = None"
    by (simp add: stuck_machine_def demo_world_def rec_a_def)
  have o: "outage (db stuck_machine) = Some ''database is locked''"
    by (simp add: stuck_machine_def)
  have ids: "rec_path rec_a = ''/a''" "original_owner rec_a = ''bob''"
    by (simp_all add: rec_a_def)
  have 1: "fst (set_owner (os stuck_machine) (rec_path rec_a) (original_owner rec_a)) = (True, [])"
    using r by (simp add: set_owner_def)
  have 2: "revert_item stuck_machine zero_counters rec_a =
     ([Log_message ''Reverted ownership for /a to bob'',
       Log_message ''Error reverting ownership for /a: database is locked''],
      stuck_machine\<lparr>os := (os stuck_machine)
         \<lparr>owner_of := (owner_of (os stuck_machine))(''/a'' \<mapsto> ''bob'')\<rparr>\<rparr>,
      \<lparr>changed = 0, unchanged = 0, errors = 1\<rparr>)"
    using revert_item_outage [OF r o, of zero_counters] by (simp add: ids zero_counters_def)
  have 3: "rows (db (fst (snd (revert_item stuck_machine zero_counters rec_a)))) = [rec_a, rec_locked]"
    unfolding 2 by (simp add: stuck_machine_def)
  have 4: "counters_emitted (fst (RevertOwnershipWorker_run exact_percent stuck_machine [rec_a]))
     = [(0, 0, 1)]"
    using revert_worker_outage [OF o, of exact_percent "[rec_a]"] by simp
  from 1 2 3 4 show ?thesis by blast
qed

text \<open>
  Claim C6 as amended. For every record of a revert run there are three outcomes.
  If \<open>set_owner\<close> succeeds and the audit database can be written, the owner of the path
  is the original owner, the rows with the record's id are deleted and \<open>changed\<close> is
  incremented. If \<open>set_owner\<close> succeeds and the DELETE raises, the owner of the path is
  the original owner, the table is as before and \<open>errors\<close> is incremented. If
  \<open>set_owner\<close> fails, the machine is as before (the record remains, unchanged) and
  \<open>errors\<close> is incremented. Over a whole run, the database being writable, the tally
  is (records \<open>set_owner\<close> accepted, 0, records it refused) and the table has lost
  exactly the rows carrying the id of an accepted record; the database being locked, the
  tally is (0, 0, number of records) and the table is as before.
\<close>

theorem revert_outcome_per_record:
  "(refusal (os m) (rec_path r) (original_owner r) = None \<and> outage (db m) = None \<longrightarrow>
      revert_item m t r =
        ([Log_message (''Reverted ownership for '' @ rec_path r @ '' to '' @ original_owner r)],
         \<lparr>os = (os m)\<lparr>owner_of := (owner_of (os m))(rec_path r \<mapsto> original_owner r)\<rparr>,
          db = (db m)\<lparr>rows := filter (\<lambda>x. rec_id x \<noteq> rec_id r) (rows (db m))\<rparr>\<rparr>,
         t\<lparr>changed := changed t + 1\<rparr>)) \<and>
   (refusal (os m) (rec_path r) (original_owner r) = None \<and> outage (db m) = Some msg \<longrightarrow>
      revert_item m t r =
        ([Log_message (''Reverted ownership for '' @ rec_path r @ '' to '' @ original_owner r),
          Log_message (''Error reverting ownership for '' @ rec_path r @ '': '' @ msg)],
         m\<lparr>os := (os m)\<lparr>owner_of := (owner_of (os m))(rec_path r \<mapsto> original_owner r)\<rparr>\<rparr>,
         t\<lparr>errors := errors t + 1\<rparr>)) \<and>
   (refusal (os m) (rec_path r) (original_owner r) = Some reason \<longrightarrow>
      revert_item m t r =
        ([Log_message (''Failed to revert owner for '' @ rec_path r @ '': '' @ reason)],
         m, t\<lparr>errors := errors t + 1\<rparr>)) \<and>
   (outage (db m) = None \<longrightarrow>
      counters_emitted (fst (RevertOwnershipWorker_run pct m records)) =
        [(length (filter (\<lambda>r. \<not> refused_record (os m) r) records), 0,
          length (filter (refused_record (os m)) records))] \<and>
      rows (db (snd (RevertOwnershipWorker_run pct m records))) =
        filter (\<lambda>x. rec_id x \<notin> rec_id ` {r \<in> set records. \<not> refused_record (os m) r})
               (rows (db m))) \<and>
   (outage (db m) = Some msg \<longrightarrow>
      counters_emitted (fst (RevertOwnershipWorker_run pct m records)) = [(0, 0, length records)] \<and>
      rows (db (snd (RevertOwnershipWorker_run pct m records))) = rows (db m))"
  using revert_item_allowed [of m r t] revert_item_outage [of m r msg t]
    revert_item_refused [of m r reason t]
    revert_worker_counters [of m pct records] revert_worker_rows [of m pct records]
    revert_worker_outage [of m msg pct records]
  by blast

text \<open>
  The three outcomes on concrete machines: \<open>/a\<close> reverted and \<open>/locked\<close> refused with a
  writable database, and \<open>/a\<close> reverted with a locked one.
\<close>

theorem revert_outcome_per_record_witness:
  "refusal (os two_row_machine) (rec_path rec_a) (original_owner rec_a) = None \<and>
   outage (db two_row_machine) = None \<and>
   refusal (os two_row_machine) (rec_path rec_locked) (original_owner rec_locked) = Some ''denied'' \<and>
   revert_item two_row_machine zero_counters rec_locked =
     ([Log_message ''Failed to revert owner for /locked: denied''],
      two_row_machine, \<lparr>changed = 0, unchanged = 0, errors = 1\<rparr>) \<and>
   revert_item two_row_machine zero_counters rec_a =
     ([Log_message ''Reverted ownership for /a to bob''],
      \<lparr>os = (os two_row_machine)\<lparr>owner_of := (owner_of (os two_row_machine))(''/a'' \<mapsto> ''bob'')\<rparr>,
       db = (db two_row_machine)\<lparr>rows := [rec_locked]\<rparr>\<rparr>,
      \<lparr>changed = 1, unchanged = 0, errors = 0\<rparr>) \<and>
   counters_emitted (fst (RevertOwnershipWorker_run exact_percent two_row_machine [rec_a, rec_locked]))
     = [(1, 0, 1)] \<and>
   rows (db (snd (RevertOwnershipWorker_run exact_percent two_row_machine [rec_a, rec_locked])))
     = [rec_locked] \<and>
   refusal (os stuck_machine) (rec_path rec_a) (original_owner rec_a) = None \<and>
   outage (db stuck_machine) = Some ''database is locked'' \<and>
   snd (snd (revert_item stuck_machine zero_counters rec_a)) =
     \<lparr>changed = 0, unchanged = 0, errors = 1\<rparr> \<and>
   counters_emitted (fst (RevertOwnershipWorker_run exact_percent stuck_machine [rec_a, rec_locked]))
     = [(0, 0, 2)] \<and>
   rows (db (snd (RevertOwnershipWorker_run exact_percent stuck_machine [rec_a, rec_locked])))
     = [rec_a, rec_locked]"
proof -
  have h1: "refusal (os two_row_machine) (rec_path rec_a) (original_owner rec_a) = None"
    by (simp add: two_row_machine_def demo_world_def rec_a_def)
  have h2: "outage (db two_row_machine) = None" by (simp add: two_row_machine_def)
  have h3: "refusal (os two_row_machine) (rec_path rec_locked) (original_owner rec_locked)
            = Some ''denied''"
    by (simp add: two_row_machine_def demo_world_def rec_locked_def)
  have h4: "refusal (os stuck_machine) (rec_path rec_a) (original_owner rec_a) = None"
    by (simp add: stuck_machine_def demo_world_def rec_a_def)
  have h5: "outage (db stuck_machine) = Some ''database is locked''"
    by (simp add: stuck_machine_def)
  have ra: "\<not> refused_record (os two_row_machine) rec_a"
    using h1 by (simp add: refused_record_def)
  have rl: "refused_record (os two_row_machine) rec_locked"
    using h3 by (simp add: refused_record_def)
  have ids: "rec_id rec_a = 1" "rec_id rec_locked = 2" "rec_path rec_a = ''/a''"
    "original_owner rec_a = ''bob''" "rec_path rec_locked = ''/locked''"
    by (simp_all add: rec_a_def rec_locked_def)
  have rws: "rows (db two_row_machine) = [rec_a, rec_locked]" by (simp add: two_row_machine_def)
  have rws': "rows (db stuck_machine) = [rec_a, rec_locked]" by (simp add: stuck_machine_def)
  note ta = revert_outcome_per_record [where m = two_row_machine and r = rec_a
      and t = zero_counters and pct = exact_percent and records = "[rec_a, rec_locked]"]
  note tl = revert_outcome_per_record [where m = two_row_machine and r = rec_locked
      and reason = "''denied''" and t = zero_counters and pct = exact_percent
      and records = "[rec_a, rec_locked]"]
  note ts = revert_outcome_per_record [where m = stuck_machine and r = rec_a
      and msg = "''database is locked''" and t = zero_counters and pct = exact_percent
      and records = "[rec_a, rec_locked]"]
  have 1: "revert_item two_row_machine zero_counters rec_locked =
     ([Log_message ''Failed to revert owner for /locked: denied''],
      two_row_machine, \<lparr>changed = 0, unchanged = 0, errors = 1\<rparr>)"
  proof -
    have "revert_item two_row_machine zero_counters rec_locked =
        ([Log_message (''Failed to revert owner for '' @ rec_path rec_locked @ '': '' @ ''denied'')],
         two_row_machine, zero_counters\<lparr>errors := errors zero_counters + 1\<rparr>)"
      using tl h3 by blast
    then show ?thesis by (simp add: ids zero_counters_def)
  qed
  have 2: "revert_item two_row_machine zero_counters rec_a =
     ([Log_message ''Reverted ownership for /a to bob''],
      \<lparr>os = (os two_row_machine)\<lparr>owner_of := (owner_of (os two_row_machine))(''/a'' \<mapsto> ''bob'')\<rparr>,
       db = (db two_row_machine)\<lparr>rows := [rec_locked]\<rparr>\<rparr>,
      \<lparr>changed = 1, unchanged = 0, errors = 0\<rparr>)"
  proof -
    have "revert_item two_row_machine zero_counters rec_a =
        ([Log_message (''Reverted ownership for '' @ rec_path rec_a @ '' to '' @ original_owner rec_a)],
         \<lparr>os = (os two_row_machine)\<lparr>owner_of := (owner_of (os two_row_machine))(rec_path rec_a \<mapsto> original_owner rec_a)\<rparr>,
          db = (db two_row_machine)\<lparr>rows := filter (\<lambda>x. rec_id x \<noteq> rec_id rec_a) (rows (db two_row_machine))\<rparr>\<rparr>,
         zero_counters\<lparr>changed := changed zero_counters + 1\<rparr>)"
      using ta h1 h2 by blast
    then show ?thesis by (simp add: ids rws zero_counters_def)
  qed
  have 3: "counters_emitted (fst (RevertOwnershipWorker_run exact_percent two_row_machine [rec_a, rec_locked]))
     = [(1, 0, 1)]"
  proof -
    have "counters_emitted (fst (RevertOwnershipWorker_run exact_percent two_row_machine [rec_a, rec_locked])) =
        [(length (filter (\<lambda>r. \<not> refused_record (os two_row_machine) r) [rec_a, rec_locked]), 0,
          length (filter (refused_record (os two_row_machine)) [rec_a, rec_locked]))]"
      using ta h2 by blast
    then show ?thesis using ra rl by simp
  qed
  have S: "{r \<in> set [rec_a, rec_locked]. \<not> refused_record (os two_row_machine) r} = {rec_a}"
    using ra rl by auto
  have 4: "rows (db (snd (RevertOwnershipWorker_run exact_percent two_row_machine [rec_a, rec_locked])))
     = [rec_locked]"
  proof -
    have "rows (db (snd (RevertOwnershipWorker_run exact_percent two_row_machine [rec_a, rec_locked])))
       = filter (\<lambda>x. rec_id x \<notin> rec_id ` {r \<in> set [rec_a, rec_locked]. \<not> refused_record (os two_row_machine) r})
           (rows (db two_row_machine))"
      using ta h2 by blast
    then show ?thesis unfolding S by (simp add: rws ids)
  qed
  have 5: "snd (snd (revert_item stuck_machine zero_counters rec_a)) =
     \<lparr>changed = 0, unchanged = 0, errors = 1\<rparr>"
  proof -
    have "revert_item stuck_machine zero_counters rec_a =
        ([Log_message (''Reverted ownership for '' @ rec_path rec_a @ '' to '' @ original_owner rec_a),
          Log_message (''Error reverting ownership for '' @ rec_path rec_a @ '': '' @ ''database is locked'')],
         stuck_machine\<lparr>os := (os stuck_machine)\<lparr>owner_of := (owner_of (os stuck_machine))(rec_path rec_a \<mapsto> original_owner rec_a)\<rparr>\<rparr>,
         zero_counters\<lparr>errors := errors zero_counters + 1\<rparr>)"
      using ts h4 h5 by blast
    then show ?thesis by (simp add: zero_counters_def)
  qed
  have 6: "counters_emitted (fst (RevertOwnershipWorker_run exact_percent stuck_machine [rec_a, rec_locked]))
     = [(0, 0, 2)] \<and>
   rows (db (snd (RevertOwnershipWorker_run exact_percent stuck_machine [rec_a, rec_locked])))
     = [rec_a, rec_locked]"
  proof -
    have "counters_emitted (fst (RevertOwnershipWorker_run exact_percent stuck_machine [rec_a, rec_locked]))
        = [(0, 0, length [rec_a, rec_locked])] \<and>
      rows (db (snd (RevertOwnershipWorker_run exact_percent stuck_machine [rec_a, rec_locked])))
        = rows (db stuck_machine)"
      using ts h5 by blast
    then show ?thesis by (simp add: rws')
  qed
  from h1 h2 h3 1 2 3 4 h4 h5 5 6 show ?thesis by blast
qed

section \<open>C7: reverting a record whose row is gone\<close>




section \<open>C8: the partition\<close>

text \<open>
  Claim C8 says that the paths are split into exactly \<open>min(4, maxThreadCount())\<close> chunks,
  a remainder going into the last one. The code fixes the size of a chunk,
  \<open>max(1, N // num_threads)\<close>, not their number, and slices the list at every multiple
  of that size. Ten paths on a pool of four threads make five chunks of two paths, the
  remainder of two forming a chunk of its own; two paths make two chunks of one.
\<close>

theorem ten_paths_five_chunks_counterexample:
  "make_chunks 4 ten_paths =
     Inr [[''/p0'', ''/p1''], [''/p2'', ''/p3''], [''/p4'', ''/p5''], [''/p6'', ''/p7''],
          [''/p8'', ''/p9'']] \<and>
   min 4 (4::int) = 4 \<and>
   make_chunks 4 [''/p0'', ''/p1''] = Inr [[''/p0''], [''/p1'']]"
proof -
  have a: "[0..<(10 + 2 - 1) div 2] = [0, 1, 2, 3, 4::nat]" by (simp add: upt_rec)
  have b: "[0..<(2 + 1 - 1) div 1] = [0, 1::nat]" by (simp add: upt_rec)
  have 1: "make_chunks 4 ten_paths =
     Inr [[''/p0'', ''/p1''], [''/p2'', ''/p3''], [''/p4'', ''/p5''], [''/p6'', ''/p7''],
          [''/p8'', ''/p9'']]"
    using a by (simp add: make_chunks_def chunk_size_of_def chunks_of_def range_step_def
        slice_def ten_paths_def)
  have 2: "make_chunks 4 [''/p0'', ''/p1''] = Inr [[''/p0''], [''/p1'']]"
    using b by (simp add: make_chunks_def chunk_size_of_def chunks_of_def range_step_def slice_def)
  from 1 2 show ?thesis by simp
qed

text \<open>
  Claim C8 as amended. For every list of \<open>N\<close> paths and every non-zero thread count the
  partition succeeds, with chunk size \<open>k = max(1, N // min(4, maxThreadCount()))\<close>. It
  makes \<open>ceil(N / k)\<close> chunks; chunk \<open>j\<close> is the slice of the input from \<open>j * k\<close>, of at
  most \<open>k\<close> paths, so that the chunks are contiguous and, concatenated in order, give the
  input list: every position of the input is in exactly one chunk. Every chunk but the
  last has exactly \<open>k\<close> paths; the last holds the paths that remain, at least one and at
  most \<open>k\<close>. With a positive thread count and at least \<open>min(4, maxThreadCount())\<close> paths
  there are at least that many chunks, and exactly that many if and only if that number
  divides \<open>N\<close>.
\<close>

theorem make_chunks_partition:
  "mtc \<noteq> 0 \<Longrightarrow>
   (let k = nat (max 1 (int (length xs) div min 4 mtc));
        chunks = chunks_of k xs
    in make_chunks mtc xs = Inr chunks \<and>
       0 < k \<and>
       length chunks = (length xs + k - 1) div k \<and>
       concat chunks = xs \<and>
       (\<forall>j < length chunks. chunks ! j = take k (drop (j * k) xs)) \<and>
       (\<forall>j. Suc j < length chunks \<longrightarrow> length (chunks ! j) = k) \<and>
       (xs \<noteq> [] \<longrightarrow> last chunks = drop ((length chunks - 1) * k) xs \<and>
                    0 < length (last chunks) \<and> length (last chunks) \<le> k) \<and>
       (0 < mtc \<and> min 4 mtc \<le> int (length xs) \<longrightarrow>
          nat (min 4 mtc) \<le> length chunks \<and>
          (length chunks = nat (min 4 mtc) \<longleftrightarrow> int (length xs) mod min 4 mtc = 0)))"
proof -
  assume m: "mtc \<noteq> 0"
  define k where "k = nat (max 1 (int (length xs) div min 4 mtc))"
  have kp: "0 < k" by (simp add: k_def)
  have 1: "make_chunks mtc xs = Inr (chunks_of k xs)"
    using m by (simp add: make_chunks_def chunk_size_of_eq k_def)
  have 2: "length (chunks_of k xs) = (length xs + k - 1) div k" by (rule length_chunks_of)
  have 3: "concat (chunks_of k xs) = xs" using kp by (rule concat_chunks_of)
  have 4: "\<forall>j < length (chunks_of k xs). chunks_of k xs ! j = take k (drop (j * k) xs)"
    by (simp add: nth_chunks_of)
  have 5: "\<forall>j. Suc j < length (chunks_of k xs) \<longrightarrow> length (chunks_of k xs ! j) = k"
    using kp by (simp add: full_chunks)
  have 6: "last (chunks_of k xs) = drop ((length (chunks_of k xs) - 1) * k) xs \<and>
           0 < length (last (chunks_of k xs)) \<and> length (last (chunks_of k xs)) \<le> k"
    if "xs \<noteq> []"
  proof -
    have "concat (chunks_of k xs) \<noteq> []" using that 3 by simp
    then have ne: "chunks_of k xs \<noteq> []" by auto
    show ?thesis using last_chunk [OF kp ne] by blast
  qed
  have 7: "nat (min 4 mtc) \<le> length (chunks_of k xs) \<and>
          (length (chunks_of k xs) = nat (min 4 mtc) \<longleftrightarrow> int (length xs) mod min 4 mtc = 0)"
    if h: "0 < mtc \<and> min 4 mtc \<le> int (length xs)"
  proof -
    from h have a: "0 < mtc" and b: "min 4 mtc \<le> int (length xs)" by simp_all
    show ?thesis
      unfolding 2 using chunk_count_threads [OF a b k_def] by simp
  qed
  show ?thesis
    unfolding Let_def k_def [symmetric] using 1 kp 2 3 4 5 6 7 by blast
qed

text \<open>On the ten paths with four threads: chunks of two, five of them.\<close>

theorem make_chunks_partition_witness:
  "(4::int) \<noteq> 0 \<and>
   make_chunks 4 ten_paths = Inr (chunks_of 2 ten_paths) \<and>
   length (chunks_of 2 ten_paths) = 5 \<and>
   concat (chunks_of 2 ten_paths) = ten_paths \<and>
   (0::nat) < length (chunks_of 2 ten_paths) \<and>
   chunks_of 2 ten_paths ! 0 = [''/p0'', ''/p1''] \<and>
   Suc 0 < length (chunks_of 2 ten_paths) \<and>
   length (chunks_of 2 ten_paths ! 0) = 2 \<and>
   ten_paths \<noteq> [] \<and>
   last (chunks_of 2 ten_paths) = [''/p8'', ''/p9''] \<and>
   (0::int) < 4 \<and> min 4 4 \<le> int (length ten_paths) \<and>
   nat (min 4 4) \<le> length (chunks_of 2 ten_paths) \<and>
   length (chunks_of 2 ten_paths) \<noteq> nat (min 4 4)"
proof -
  have n: "length ten_paths = 10" by (simp add: ten_paths_def)
  have kk: "nat (max 1 (int (length ten_paths) div min 4 4)) = 2" by (simp add: n)
  note t = make_chunks_partition [where mtc = 4 and xs = ten_paths, unfolded Let_def kk]
  have h0: "(4::int) \<noteq> 0" by simp
  have 1: "make_chunks 4 ten_paths = Inr (chunks_of 2 ten_paths)" using t h0 by blast
  have "length (chunks_of 2 ten_paths) = (length ten_paths + 2 - 1) div 2" using t h0 by blast
  then have 2: "length (chunks_of 2 ten_paths) = 5" by (simp add: n)
  have 3: "concat (chunks_of 2 ten_paths) = ten_paths" using t h0 by blast
  have h1: "(0::nat) < length (chunks_of 2 ten_paths)" using 2 by simp
  have "chunks_of 2 ten_paths ! 0 = take 2 (drop (0 * 2) ten_paths)" using t h0 h1 by blast
  then have 4: "chunks_of 2 ten_paths ! 0 = [''/p0'', ''/p1'']" by (simp add: ten_paths_def)
  have h2: "Suc 0 < length (chunks_of 2 ten_paths)" using 2 by simp
  have 5: "length (chunks_of 2 ten_paths ! 0) = 2" using t h0 h2 by blast
  have h3: "ten_paths \<noteq> []" by (simp add: ten_paths_def)
  have "last (chunks_of 2 ten_paths) = drop ((length (chunks_of 2 ten_paths) - 1) * 2) ten_paths"
    using t h0 h3 by blast
  then have 6: "last (chunks_of 2 ten_paths) = [''/p8'', ''/p9'']"
    unfolding 2 by (simp add: ten_paths_def)
  have h4: "(0::int) < 4 \<and> min 4 4 \<le> int (length ten_paths)" by (simp add: n)
  have 7: "nat (min 4 4) \<le> length (chunks_of 2 ten_paths) \<and>
          (length (chunks_of 2 ten_paths) = nat (min 4 4) \<longleftrightarrow> int (length ten_paths) mod min 4 4 = 0)"
    using t [OF h0] by (elim conjE) (erule mp, rule h4)
  have 8: "length (chunks_of 2 ten_paths) \<noteq> nat (min 4 4)" using 2 by simp
  from h0 1 2 3 h1 4 h2 5 h3 6 h4 7 8 show ?thesis by blast
qed

section \<open>C9: progress reports\<close>



section \<open>C10: the check run never counts an error\<close>

text \<open>
  Claim C10. \<open>get_owner\<close> is total: it returns the platform's answer, and "Unknown"
  whenever the platform's lookup fails; it has no other outcome. Consequently the tally
  a check worker emits for its paths is \<open>(0, number of paths, 0)\<close>, a path whose lookup
  fails is logged with owner "Unknown" and counted under \<open>unchanged\<close>, and after a check
  run over a non-empty selection the window's error counter is 0.
\<close>

theorem check_never_counts_errors:
  "(owner_of w path = None \<longrightarrow> get_owner w path = ''Unknown'') \<and>
   (\<forall>name. owner_of w path = Some name \<longrightarrow> get_owner w path = name) \<and>
   counters_emitted (OwnershipCheckWorker_run pct u w paths) = [(0, length paths, 0)] \<and>
   (path \<in> set paths \<and> owner_of w path = None \<longrightarrow>
      Log_message (''Checked: '' @ path @ '' - Owner: Unknown'')
        \<in> set (OwnershipCheckWorker_run pct u w paths)) \<and>
   (selected_files @ selected_folders \<noteq> [] \<longrightarrow>
      errors_label (check_ownership_info pct mtc u fs w selected_files selected_folders ui) = 0)"
proof (intro conjI impI allI)
  show "get_owner w path = ''Unknown''" if "owner_of w path = None"
    using that by (simp add: get_owner_def)
  show "get_owner w path = name" if "owner_of w path = Some name" for name
    using that by (simp add: get_owner_def)
  show "counters_emitted (OwnershipCheckWorker_run pct u w paths) = [(0, length paths, 0)]"
    by (rule check_worker_counters)
  show "Log_message (''Checked: '' @ path @ '' - Owner: Unknown'')
        \<in> set (OwnershipCheckWorker_run pct u w paths)"
    if "path \<in> set paths \<and> owner_of w path = None"
  proof -
    have "get_owner w path = ''Unknown''" using that by (simp add: get_owner_def)
    with check_worker_log [of path paths w pct u "length paths" 1 zero_counters] that
    show ?thesis by (simp add: OwnershipCheckWorker_run_def split_beta Let_def)
  qed
  show "errors_label (check_ownership_info pct mtc u fs w selected_files selected_folders ui) = 0"
    if ne: "selected_files @ selected_folders \<noteq> []"
  proof -
    let ?r = "check_ownership_info pct mtc u fs w selected_files selected_folders ui"
    have "snd (snd (shown ?r)) = 0"
    proof (cases "make_chunks mtc (collect fs (selected_files @ selected_folders))")
      case (Inl e)
      with ne show ?thesis by (auto simp add: check_ownership_info_def Let_def)
    next
      case (Inr chunks)
      have "snd (snd (shown (deliver (reset_window ui) (check_signals pct u w chunks)))) = 0"
        by (cases "chunks = []")
           (simp_all add: shown_deliver check_signals_counters last_map)
      with ne Inr show ?thesis by (auto simp add: check_ownership_info_def Let_def)
    qed
    then show ?thesis by (simp add: shown_def)
  qed
qed

theorem check_never_counts_errors_witness:
  "owner_of demo_world ''/gone'' = None \<and> get_owner demo_world ''/gone'' = ''Unknown'' \<and>
   owner_of demo_world ''/a'' = Some ''bob'' \<and> get_owner demo_world ''/a'' = ''bob'' \<and>
   ''/gone'' \<in> set [''/a'', ''/gone''] \<and>
   Log_message (''Checked: /gone - Owner: Unknown'')
     \<in> set (OwnershipCheckWorker_run exact_percent ''alice'' demo_world [''/a'', ''/gone'']) \<and>
   [''/a'', ''/gone''] @ [] \<noteq> [] \<and>
   errors_label (check_ownership_info exact_percent 4 ''alice'' [''/a'' \<mapsto> File, ''/gone'' \<mapsto> File]
      demo_world [''/a'', ''/gone''] [] blank_window) = 0"
  using check_never_counts_errors [of demo_world "''/gone''" exact_percent "''alice''" "[''/a'', ''/gone'']"
      "[''/a'', ''/gone'']" "[]" 4 "[''/a'' \<mapsto> File, ''/gone'' \<mapsto> File]" blank_window]
     check_never_counts_errors [of demo_world "''/a''" exact_percent "''alice''" "[''/a'', ''/gone'']"
      "[''/a'', ''/gone'']" "[]" 4 "[''/a'' \<mapsto> File, ''/gone'' \<mapsto> File]" blank_window]
  by (simp add: demo_world_def)

end
